theory Spec2Isabelle
  imports Main
begin

section \<open>JavaScript strings\<close>

text \<open>
  A JavaScript string is modelled as a \<^typ>\<open>string\<close>: each \<^typ>\<open>char\<close> stands for
  the code unit of the same value, so the model covers texts whose code units are
  below 256. A value that is a string or \<open>null\<close>/\<open>undefined\<close> is a
  \<^typ>\<open>string option\<close>.
\<close>

text \<open>JavaScript truthiness of a string-or-null value: neither null nor empty.\<close>

definition truthy :: "string option \<Rightarrow> bool" where
  "truthy v = (case v of None \<Rightarrow> False | Some s \<Rightarrow> s \<noteq> [])"

text \<open>
  White space and line terminators of ECMAScript among the code units below 256:
  TAB, LF, VT, FF, CR, SP and NBSP. They are what \<open>\s\<close> matches and what
  \<open>trim\<close> strips.
\<close>

definition is_space :: "char \<Rightarrow> bool" where
  "is_space c = (of_char c \<in> {9, 10, 11, 12, 13, 32, 160 :: nat})"

definition is_line_terminator :: "char \<Rightarrow> bool" where
  "is_line_terminator c = (of_char c \<in> {10, 13 :: nat})"

definition is_digit :: "char \<Rightarrow> bool" where
  "is_digit c = (48 \<le> (of_char c :: nat) \<and> (of_char c :: nat) \<le> 57)"

definition trim :: "string \<Rightarrow> string" where
  "trim s = rev (dropWhile is_space (rev (dropWhile is_space s)))"

text \<open>\<open>s.split(sep)\<close> for a one-character separator: never an empty array.\<close>

fun split :: "char \<Rightarrow> string \<Rightarrow> string list" where
  "split sep [] = [[]]"
| "split sep (c # cs) =
     (if c = sep then [] # split sep cs
      else (case split sep cs of [] \<Rightarrow> [[c]] | l # ls \<Rightarrow> (c # l) # ls))"

text \<open>\<open>s.startsWith(p)\<close> and \<open>s.endsWith(p)\<close>.\<close>

fun startsWith :: "string \<Rightarrow> string \<Rightarrow> bool" where
  "startsWith s [] = True"
| "startsWith [] (p # ps) = False"
| "startsWith (c # cs) (p # ps) = (c = p \<and> startsWith cs ps)"

definition endsWith :: "string \<Rightarrow> string \<Rightarrow> bool" where
  "endsWith s p = startsWith (rev s) (rev p)"

text \<open>\<open>s.indexOf(p)\<close>: the first index at which \<open>p\<close> occurs, \<open>None\<close> for \<open>-1\<close>.\<close>

fun indexOf :: "string \<Rightarrow> string \<Rightarrow> nat option" where
  "indexOf [] p = (if p = [] then Some 0 else None)"
| "indexOf (c # cs) p =
     (if startsWith (c # cs) p then Some 0
      else map_option Suc (indexOf cs p))"

text \<open>
  \<open>s.replace(p, r)\<close> with a string pattern: only the first occurrence of \<open>p\<close> is
  replaced, wherever it is.
\<close>

definition replace :: "string \<Rightarrow> string \<Rightarrow> string \<Rightarrow> string" where
  "replace s p r =
     (case indexOf s p of
        None \<Rightarrow> s
      | Some i \<Rightarrow> take i s @ r @ drop (i + length p) s)"

text \<open>
  \<open>parseInt(s, 10)\<close> on a string of decimal digits. The value is exact; JavaScript
  rounds to the nearest double above \<open>2^53\<close>.
\<close>

definition digit_val :: "char \<Rightarrow> nat" where
  "digit_val c = of_char c - 48"

definition parseInt :: "string \<Rightarrow> nat" where
  "parseInt s = foldl (\<lambda>n c. 10 * n + digit_val c) 0 s"

section \<open>The frame pattern\<close>

text \<open>
  The regular expressions the translator needs: a literal character, a character
  class repeated one or more times (greedy \<open>+\<close> or lazy \<open>+?\<close>), a greedy optional
  part \<open>?\<close>, concatenation, and a numbered capture group.
\<close>

datatype cclass = Dot | Space | Digit

datatype regex =
    Lit char
  | Plus cclass
  | PlusLazy cclass
  | Opt regex
  | Cat regex regex
  | Group nat regex

fun in_class :: "cclass \<Rightarrow> char \<Rightarrow> bool" where
  "in_class Dot c = (\<not> is_line_terminator c)"
| "in_class Space c = is_space c"
| "in_class Digit c = is_digit c"

type_synonym captures = "nat \<Rightarrow> string option"

text \<open>
  \<open>matches r s caps\<close> lists every way in which \<open>r\<close> matches a prefix of \<open>s\<close>, in the
  order in which a backtracking matcher tries them: each entry is the rest of the
  input and the captures. A greedy repetition tries the longest run first, a lazy
  one the shortest; a greedy optional part is tried before it is skipped, and a
  skipped part leaves its groups unset.
\<close>

fun matches :: "regex \<Rightarrow> string \<Rightarrow> captures \<Rightarrow> (string \<times> captures) list" where
  "matches (Lit c) s caps =
     (case s of [] \<Rightarrow> [] | d # r \<Rightarrow> if c = d then [(r, caps)] else [])"
| "matches (Plus cl) s caps =
     map (\<lambda>k. (drop k s, caps)) (rev [1 ..< Suc (length (takeWhile (in_class cl) s))])"
| "matches (PlusLazy cl) s caps =
     map (\<lambda>k. (drop k s, caps)) [1 ..< Suc (length (takeWhile (in_class cl) s))]"
| "matches (Opt r) s caps = matches r s caps @ [(s, caps)]"
| "matches (Cat r1 r2) s caps =
     concat (map (\<lambda>(s', caps'). matches r2 s' caps') (matches r1 s caps))"
| "matches (Group n r) s caps =
     map (\<lambda>(s', caps'). (s', caps'(n \<mapsto> take (length s - length s') s)))
       (matches r s caps)"

text \<open>
  \<open>s.match(r)\<close> for a pattern without the global flag: the first match at the
  leftmost position that has one; the result is its captures.
\<close>

fun exec :: "regex \<Rightarrow> string \<Rightarrow> captures option" where
  "exec r [] = (case matches r [] (\<lambda>_. None) of [] \<Rightarrow> None | (_, caps) # _ \<Rightarrow> Some caps)"
| "exec r (c # cs) =
     (case matches r (c # cs) (\<lambda>_. None) of
        [] \<Rightarrow> exec r cs
      | (_, caps) # _ \<Rightarrow> Some caps)"

fun cat_list :: "regex list \<Rightarrow> regex" where
  "cat_list [r] = r"
| "cat_list (r # rs) = Cat r (cat_list rs)"
| "cat_list [] = Opt (Lit CHR ''a'')"

text \<open>\<^verbatim>\<open>/at\s+(?:(.+?)\s+\()?(.+?):(\d+):(\d+)\)?/\<close>\<close>

definition frame_pattern :: regex where
  "frame_pattern =
     cat_list
       [Lit CHR ''a'', Lit CHR ''t'', Plus Space,
        Opt (cat_list [Group 1 (PlusLazy Dot), Plus Space, Lit CHR ''('']),
        Group 2 (PlusLazy Dot), Lit CHR '':'',
        Group 3 (Plus Digit), Lit CHR '':'',
        Group 4 (Plus Digit),
        Opt (Lit CHR '')'')]"


section \<open>The library and the environment\<close>

text \<open>
  The translator and the chaining script call the \<open>source-map\<close> package and Node's
  \<open>fs\<close> and \<open>path\<close> modules. Their results are parameters of the model. A call
  that may throw returns a sum: \<open>Inl msg\<close> is a thrown error with message \<open>msg\<close>.
\<close>

text \<open>The object returned by \<open>originalPositionFor\<close>; every field may be null.\<close>

record position =
  p_source :: "string option"
  p_line :: "nat option"
  p_column :: "nat option"
  p_name :: "string option"

text \<open>The object passed to the callback of \<open>eachMapping\<close>.\<close>

record mapping =
  m_source :: "string option"
  generatedLine :: nat
  generatedColumn :: nat
  originalLine :: "nat option"
  originalColumn :: "nat option"
  m_name :: "string option"

text \<open>
  A \<open>SourceMapConsumer\<close>: its resolver (called with \<open>line\<close> and \<open>column\<close>), the
  mappings \<open>eachMapping\<close> iterates over, in its order, and its \<open>sources\<close> and
  \<open>sourcesContent\<close> properties.
\<close>

record consumer =
  originalPositionFor :: "nat option \<Rightarrow> nat option \<Rightarrow> string + position"
  eachMapping :: "mapping list"
  sources :: "string list"
  sourcesContent :: "string option list option"

text \<open>The parsed JSON of a mapping document, as far as the chaining script reads it.\<close>

record raw_map =
  rm_file :: "string option"
  rm_sources :: "string list"
  rm_sourcesContent :: "string option list option"
  rm_names :: "string list"
  rm_mappings :: string

text \<open>
  The environment over a file system state \<open>'fs\<close>: Node's \<open>path\<close> functions,
  the \<open>fs\<close> functions, \<open>JSON.parse\<close>, and the constructor of
  \<open>SourceMapConsumer\<close> on a string and on a parsed object.
\<close>

record 'fs env =
  isAbsolute :: "string \<Rightarrow> bool"
  basename :: "string \<Rightarrow> string"
  basename_ext :: "string \<Rightarrow> string \<Rightarrow> string"
  dirname :: "string \<Rightarrow> string"
  join :: "string list \<Rightarrow> string"
  resolve :: "string \<Rightarrow> string \<Rightarrow> string"
  relative :: "string \<Rightarrow> string \<Rightarrow> string"
  existsSync :: "'fs \<Rightarrow> string \<Rightarrow> bool"
  readFileSync :: "'fs \<Rightarrow> string \<Rightarrow> string + string"
  writeFileSync :: "'fs \<Rightarrow> string \<Rightarrow> string \<Rightarrow> string + 'fs"
  JSON_parse :: "string \<Rightarrow> string + raw_map"
  consumer_of_string :: "string \<Rightarrow> string + consumer"
  consumer_of_object :: "raw_map \<Rightarrow> string + consumer"

section \<open>The stack trace translator\<close>

record frame =
  functionName :: string
  filePath :: string
  lineNum :: nat
  column :: nat

record translated =
  t_file :: string
  t_line :: "nat option"
  t_column :: "nat option"
  t_name :: string
  sourceCode :: "string option"

record entry =
  original :: string
  translated :: "translated option"
  error :: "string option"
  obfuscated :: "(string \<times> nat \<times> nat) option"

text \<open>
  The fields read from a match (\<open>match[1]\<close> to \<open>match[4]\<close>), and the test that
  makes it a frame: a non-empty file path and numbers for line and column.
\<close>

definition frame_of_match :: "captures \<Rightarrow> frame option" where
  "frame_of_match m =
     (let fn = (case m 1 of None \<Rightarrow> ''<anonymous>''
                | Some s \<Rightarrow> if s = [] then ''<anonymous>'' else trim s);
          file_path = (case m 2 of None \<Rightarrow> None
                       | Some s \<Rightarrow> if s = [] then None else Some (trim s));
          line_num = (case m 3 of None \<Rightarrow> None
                      | Some s \<Rightarrow> if s = [] then None else Some (parseInt s));
          col = (case m 4 of None \<Rightarrow> None
                 | Some s \<Rightarrow> if s = [] then None else Some (parseInt s))
      in case (file_path, line_num, col) of
           (Some f, Some l, Some c) \<Rightarrow>
             if f = [] then None
             else Some \<lparr>functionName = fn, filePath = f, lineNum = l, column = c\<rparr>
         | _ \<Rightarrow> None)"

definition parse_frame :: "string \<Rightarrow> frame option" where
  "parse_frame line =
     (case exec frame_pattern (trim line) of
        None \<Rightarrow> None
      | Some m \<Rightarrow> frame_of_match m)"

text \<open>
  The name of the artifact whose mapping document a relative path refers to,
  from the base name of the path.
\<close>

definition relative_js_file_name :: "string \<Rightarrow> string" where
  "relative_js_file_name jsFileName =
     (if endsWith jsFileName ''.ts'' then replace jsFileName ''.ts'' ''.js''
      else jsFileName)"

definition source_map_path :: "'fs env \<Rightarrow> string \<Rightarrow> string \<Rightarrow> string" where
  "source_map_path E distDir file_path =
     (if isAbsolute E file_path then
        (case indexOf file_path ''dist'' of
           Some distIndex \<Rightarrow>
             (let relativeFromDist = drop (distIndex + 5) file_path;
                  jsFileName = basename E relativeFromDist;
                  dirPath = dirname E relativeFromDist
              in join E [distDir, dirPath, jsFileName @ ''.map''])
         | None \<Rightarrow> join E [distDir, basename E file_path @ ''.map''])
      else join E [distDir, relative_js_file_name (basename E file_path) @ ''.map''])"

text \<open>
  The resolution of a frame: the query at the exact column and, when that yields
  no source and the column is positive, a second query at column 0. The first
  component lists the queries made, in order.
\<close>

definition resolve_frame ::
  "consumer \<Rightarrow> nat \<Rightarrow> nat \<Rightarrow> (nat \<times> nat) list \<times> (string + position)" where
  "resolve_frame c l col =
     (case originalPositionFor c (Some l) (Some col) of
        Inl e \<Rightarrow> ([(l, col)], Inl e)
      | Inr p \<Rightarrow>
          if \<not> truthy (p_source p) \<and> col > 0
          then ([(l, col), (l, 0)], originalPositionFor c (Some l) (Some 0))
          else ([(l, col)], Inr p))"

definition nth_opt :: "'a list \<Rightarrow> nat \<Rightarrow> 'a option" where
  "nth_opt xs i = (if i < length xs then Some (xs ! i) else None)"

fun list_indexOf :: "'a list \<Rightarrow> 'a \<Rightarrow> nat option" where
  "list_indexOf [] y = None"
| "list_indexOf (x # xs) y = (if x = y then Some 0 else map_option Suc (list_indexOf xs y))"

definition source_code_line :: "consumer \<Rightarrow> string \<Rightarrow> nat option \<Rightarrow> string option" where
  "source_code_line c src line =
     (case sourcesContent c of
        None \<Rightarrow> None
      | Some contents \<Rightarrow>
          (case list_indexOf (sources c) src of
             None \<Rightarrow> None
           | Some sourceIndex \<Rightarrow>
               (case nth_opt contents sourceIndex of
                  Some (Some content) \<Rightarrow>
                    if content = [] then None
                    else (case line of
                            None \<Rightarrow> None
                          | Some n \<Rightarrow>
                              if n = 0 then None
                              else (case nth_opt (split CHR 0x0A content) (n - 1) of
                                      Some l \<Rightarrow> if l = [] then None else Some (trim l)
                                    | None \<Rightarrow> None))
                | _ \<Rightarrow> None)))"

definition displayName :: "string option \<Rightarrow> string \<Rightarrow> string" where
  "displayName name fn =
     (case name of
        None \<Rightarrow> fn
      | Some n \<Rightarrow> if n \<noteq> [] \<and> \<not> startsWith n ''_0x'' then n else fn)"

text \<open>The body of the \<open>try\<close> block: \<open>Inl msg\<close> when it throws.\<close>

definition translate_with_map ::
  "'fs env \<Rightarrow> 'fs \<Rightarrow> string \<Rightarrow> string \<Rightarrow> frame \<Rightarrow> string + entry" where
  "translate_with_map E fs sourceMapPath line f =
     (case readFileSync E fs sourceMapPath of
        Inl e \<Rightarrow> Inl e
      | Inr sourceMapContent \<Rightarrow>
          (case consumer_of_string E sourceMapContent of
             Inl e \<Rightarrow> Inl e
           | Inr c \<Rightarrow>
               (case snd (resolve_frame c (lineNum f) (column f)) of
                  Inl e \<Rightarrow> Inl e
                | Inr originalPosition \<Rightarrow>
                    (case p_source originalPosition of
                       None \<Rightarrow>
                         Inr \<lparr>original = line, translated = None,
                              error = Some ''No original position found in source map'',
                              obfuscated = None\<rparr>
                     | Some src \<Rightarrow>
                         if src = [] then
                           Inr \<lparr>original = line, translated = None,
                                error = Some ''No original position found in source map'',
                                obfuscated = None\<rparr>
                         else
                           Inr \<lparr>original = line,
                                translated = Some
                                  \<lparr>t_file = src,
                                   t_line = p_line originalPosition,
                                   t_column = p_column originalPosition,
                                   t_name = displayName (p_name originalPosition) (functionName f),
                                   sourceCode = source_code_line c src (p_line originalPosition)\<rparr>,
                                error = None,
                                obfuscated = Some (filePath f, lineNum f, column f)\<rparr>))))"

definition translate_line :: "'fs env \<Rightarrow> 'fs \<Rightarrow> string \<Rightarrow> string \<Rightarrow> entry" where
  "translate_line E fs distDir line =
     (case parse_frame line of
        None \<Rightarrow> \<lparr>original = line, translated = None, error = None, obfuscated = None\<rparr>
      | Some f \<Rightarrow>
          (let sourceMapPath = source_map_path E distDir (filePath f)
           in if existsSync E fs sourceMapPath then
                (case translate_with_map E fs sourceMapPath line f of
                   Inr r \<Rightarrow> r
                 | Inl msg \<Rightarrow>
                     \<lparr>original = line, translated = None,
                      error = Some (''Error reading source map: '' @ msg),
                      obfuscated = None\<rparr>)
              else
                \<lparr>original = line, translated = None,
                 error = Some (''Source map not found: '' @ sourceMapPath),
                 obfuscated = None\<rparr>))"

definition translateStackTrace :: "'fs env \<Rightarrow> 'fs \<Rightarrow> string \<Rightarrow> string \<Rightarrow> entry list" where
  "translateStackTrace E fs stackTrace distDir =
     map (translate_line E fs distDir) (split CHR 0x0A stackTrace)"


section \<open>The chaining script\<close>

text \<open>
  The \<open>SourceMapGenerator\<close> is modelled by what the script hands to it: the file
  name it is created with, the calls of \<open>setSourceContent\<close> and the calls of
  \<open>addMapping\<close>, each in order. Its serialisation is a parameter.
\<close>

record new_mapping =
  gen_line :: nat
  gen_column :: nat
  orig_line :: "nat option"
  orig_column :: "nat option"
  n_source :: string
  n_name :: "string option"

record generator =
  g_file :: string
  g_sourcesContents :: "(string \<times> string option) list"
  g_mappings :: "new_mapping list"

text \<open>
  The source contents handed to the generator. With \<open>sourcesContent\<close> in the first
  document, its entries by index; without, each source is read from the file
  system, inside a \<open>try\<close> of its own.
\<close>

definition read_source :: "'fs env \<Rightarrow> 'fs \<Rightarrow> string \<Rightarrow> string \<Rightarrow> (string \<times> string option) list" where
  "read_source E fs tsSourceMapPath src =
     (let sourceMapDir = dirname E tsSourceMapPath;
          sourceFilePath = resolve E sourceMapDir src
      in if existsSync E fs sourceFilePath then
           (case readFileSync E fs sourceFilePath of
              Inr sourceContent \<Rightarrow> [(src, Some sourceContent)]
            | Inl e \<Rightarrow> [])
         else [])"

fun read_sources :: "'fs env \<Rightarrow> 'fs \<Rightarrow> string \<Rightarrow> string list \<Rightarrow> (string \<times> string option) list" where
  "read_sources E fs tsSourceMapPath [] = []"
| "read_sources E fs tsSourceMapPath (src # rest) =
     read_source E fs tsSourceMapPath src @ read_sources E fs tsSourceMapPath rest"

definition source_contents :: "'fs env \<Rightarrow> 'fs \<Rightarrow> string \<Rightarrow> raw_map \<Rightarrow> (string \<times> string option) list" where
  "source_contents E fs tsSourceMapPath tsMapContent =
     (case rm_sourcesContent tsMapContent of
        Some contents \<Rightarrow>
          map (\<lambda>(src, i). (src, case nth_opt contents i of Some c \<Rightarrow> c | None \<Rightarrow> None))
            (zip (rm_sources tsMapContent) [0 ..< length (rm_sources tsMapContent)])
      | None \<Rightarrow> read_sources E fs tsSourceMapPath (rm_sources tsMapContent))"

text \<open>
  The callback of \<open>eachMapping\<close> on one mapping of the second document: the
  mappings it adds, or the error thrown by the resolver of the first.
\<close>

definition chain_step :: "consumer \<Rightarrow> mapping \<Rightarrow> string + new_mapping list" where
  "chain_step tsConsumer m =
     (if \<not> truthy (m_source m) then Inr []
      else
        (case originalPositionFor tsConsumer (originalLine m) (originalColumn m) of
           Inl e \<Rightarrow> Inl e
         | Inr originalPosition \<Rightarrow>
             (case p_source originalPosition of
                None \<Rightarrow> Inr []
              | Some src \<Rightarrow>
                  if src = [] then Inr []
                  else
                    Inr [\<lparr>gen_line = generatedLine m,
                          gen_column = generatedColumn m,
                          orig_line = p_line originalPosition,
                          orig_column = p_column originalPosition,
                          n_source = src,
                          n_name = (if truthy (p_name originalPosition)
                                    then p_name originalPosition else m_name m)\<rparr>])))"

fun chain_mappings :: "consumer \<Rightarrow> mapping list \<Rightarrow> string + new_mapping list" where
  "chain_mappings tsConsumer [] = Inr []"
| "chain_mappings tsConsumer (m # ms) =
     (case chain_step tsConsumer m of
        Inl e \<Rightarrow> Inl e
      | Inr added \<Rightarrow>
          (case chain_mappings tsConsumer ms of
             Inl e \<Rightarrow> Inl e
           | Inr rest \<Rightarrow> Inr (added @ rest)))"

text \<open>Reading and parsing both documents and creating their consumers.\<close>

definition load_maps ::
  "'fs env \<Rightarrow> 'fs \<Rightarrow> string \<Rightarrow> string \<Rightarrow> string + (raw_map \<times> raw_map \<times> consumer \<times> consumer)" where
  "load_maps E fs tsSourceMapPath obfSourceMapPath =
     (case readFileSync E fs tsSourceMapPath of
        Inl e \<Rightarrow> Inl e
      | Inr tsText \<Rightarrow>
     (case JSON_parse E tsText of
        Inl e \<Rightarrow> Inl e
      | Inr tsMapContent \<Rightarrow>
     (case readFileSync E fs obfSourceMapPath of
        Inl e \<Rightarrow> Inl e
      | Inr obfText \<Rightarrow>
     (case JSON_parse E obfText of
        Inl e \<Rightarrow> Inl e
      | Inr obfMapContent \<Rightarrow>
     (case consumer_of_object E tsMapContent of
        Inl e \<Rightarrow> Inl e
      | Inr tsConsumer \<Rightarrow>
     (case consumer_of_object E obfMapContent of
        Inl e \<Rightarrow> Inl e
      | Inr obfConsumer \<Rightarrow>
          Inr (tsMapContent, obfMapContent, tsConsumer, obfConsumer)))))))"

text \<open>The body of the \<open>try\<close> block of \<open>chainSourceMaps\<close>, up to the generator.\<close>

definition chain_generator :: "'fs env \<Rightarrow> 'fs \<Rightarrow> string \<Rightarrow> string \<Rightarrow> string + generator" where
  "chain_generator E fs tsSourceMapPath obfSourceMapPath =
     (case load_maps E fs tsSourceMapPath obfSourceMapPath of
        Inl e \<Rightarrow> Inl e
      | Inr (tsMapContent, obfMapContent, tsConsumer, obfConsumer) \<Rightarrow>
          (let file = (case rm_file obfMapContent of
                         None \<Rightarrow> basename_ext E obfSourceMapPath ''.map''
                       | Some f \<Rightarrow> if f = [] then basename_ext E obfSourceMapPath ''.map'' else f);
               contents = source_contents E fs tsSourceMapPath tsMapContent
           in case chain_mappings tsConsumer (eachMapping obfConsumer) of
                Inl e \<Rightarrow> Inl e
              | Inr added \<Rightarrow>
                  Inr \<lparr>g_file = file, g_sourcesContents = contents, g_mappings = added\<rparr>))"

text \<open>
  \<open>chainSourceMaps\<close>: the serialised generator, or \<open>None\<close> for the \<open>null\<close> that the
  \<open>catch\<close> returns.
\<close>

definition chainSourceMaps ::
  "'fs env \<Rightarrow> (generator \<Rightarrow> string) \<Rightarrow> 'fs \<Rightarrow> string \<Rightarrow> string \<Rightarrow> string option" where
  "chainSourceMaps E toString fs tsSourceMapPath obfSourceMapPath =
     (case chain_generator E fs tsSourceMapPath obfSourceMapPath of
        Inl e \<Rightarrow> None
      | Inr g \<Rightarrow> Some (toString g))"

text \<open>
  The loop of \<open>main\<close> over the documents found in the backup directory. The state
  is the file system and the two counters; \<open>Inl\<close> is an error that leaves the loop,
  which only \<open>writeFileSync\<close> can throw.
\<close>

definition DIST_DIR :: string where
  "DIST_DIR = ''./dist''"

definition TS_BACKUP_DIR :: string where
  "TS_BACKUP_DIR = ''./dist-sourcemaps-backup''"

fun main_loop ::
  "'fs env \<Rightarrow> (generator \<Rightarrow> string) \<Rightarrow> 'fs \<times> nat \<times> nat \<Rightarrow> string list \<Rightarrow> string + ('fs \<times> nat \<times> nat)" where
  "main_loop E toString st [] = Inr st"
| "main_loop E toString (fs, chainedCount, failedCount) (tsMapPath # rest) =
     (let relativePath = relative E TS_BACKUP_DIR tsMapPath;
          obfMapPath = join E [DIST_DIR, relativePath]
      in if \<not> existsSync E fs obfMapPath then
           main_loop E toString (fs, chainedCount, failedCount + 1) rest
         else
           (case chainSourceMaps E toString fs tsMapPath obfMapPath of
              None \<Rightarrow> main_loop E toString (fs, chainedCount, failedCount + 1) rest
            | Some chainedMap \<Rightarrow>
                if chainedMap = [] then
                  main_loop E toString (fs, chainedCount, failedCount + 1) rest
                else
                  (case writeFileSync E fs obfMapPath chainedMap of
                     Inl e \<Rightarrow> Inl e
                   | Inr fs' \<Rightarrow> main_loop E toString (fs', chainedCount + 1, failedCount) rest)))"


section \<open>The resolver of the specification\<close>

text \<open>
  Modelled from the spec: the Position Resolver (section 4.2) is the
  \<open>source-map\<close> package, which is not among the sources. A position maps to the
  nearest preceding segment on the same line that has an original position; among
  segments at the same column the earliest wins; without such a segment on that
  line the result is not found.
\<close>

definition covers :: "mapping \<Rightarrow> nat \<Rightarrow> nat \<Rightarrow> bool" where
  "covers m l col = (generatedLine m = l \<and> generatedColumn m \<le> col \<and> m_source m \<noteq> None)"

text \<open>
  Modelled from the spec: the nearest preceding segment of a position (section
  4.2), the earliest among those at the same column (section 3).
\<close>

fun resolve_segments :: "mapping list \<Rightarrow> nat \<Rightarrow> nat \<Rightarrow> mapping option" where
  "resolve_segments [] l col = None"
| "resolve_segments (m # ms) l col =
     (case resolve_segments ms l col of
        None \<Rightarrow> if covers m l col then Some m else None
      | Some b \<Rightarrow>
          if covers m l col \<and> generatedColumn b \<le> generatedColumn m then Some m
          else Some b)"

text \<open>
  Modelled from the spec: the not-found result of the resolver (section 4.2).
\<close>

definition not_found :: position where
  "not_found = \<lparr>p_source = None, p_line = None, p_column = None, p_name = None\<rparr>"

text \<open>
  Modelled from the spec: the original position, source and name that a segment
  carries (section 4.2).
\<close>

definition position_of :: "mapping \<Rightarrow> position" where
  "position_of m =
     \<lparr>p_source = m_source m, p_line = originalLine m,
      p_column = originalColumn m, p_name = m_name m\<rparr>"

text \<open>
  Modelled from the spec: \<open>resolve(line, column)\<close> of section 4.2; a query
  without a line or a column finds nothing.
\<close>

definition spec_resolve :: "mapping list \<Rightarrow> nat option \<Rightarrow> nat option \<Rightarrow> position" where
  "spec_resolve segs line col =
     (case (line, col) of
        (Some l, Some c) \<Rightarrow>
          (case resolve_segments segs l c of
             None \<Rightarrow> not_found
           | Some m \<Rightarrow> position_of m)
      | _ \<Rightarrow> not_found)"

text \<open>
  Modelled from the spec: a consumer over a decoded segment sequence and the
  tables of its document, with the resolver above; a miss is a result, not an
  error (section 7).
\<close>

definition spec_consumer ::
  "mapping list \<Rightarrow> string list \<Rightarrow> string option list option \<Rightarrow> consumer" where
  "spec_consumer segs srcs contents =
     \<lparr>originalPositionFor = (\<lambda>line col. Inr (spec_resolve segs line col)),
      eachMapping = segs,
      sources = srcs,
      sourcesContent = contents\<rparr>"

text \<open>
  Modelled from the spec: the segment of the composed document that an added
  mapping becomes (the encoder is the inverse of the decoder, section 4.4).
\<close>

definition segment_of :: "new_mapping \<Rightarrow> mapping" where
  "segment_of n =
     \<lparr>m_source = Some (n_source n),
      generatedLine = gen_line n, generatedColumn = gen_column n,
      originalLine = orig_line n, originalColumn = orig_column n,
      m_name = n_name n\<rparr>"

section \<open>A small environment\<close>

text \<open>
  An environment on which the model can be evaluated: the file system is a finite
  map from paths to contents, paths are separated by \<open>/\<close>, \<open>parse\<close> stands for
  \<open>JSON.parse\<close> and \<open>decode\<close> for the decoder of the package.
\<close>

fun join_with :: "string \<Rightarrow> string list \<Rightarrow> string" where
  "join_with sep [] = []"
| "join_with sep [x] = x"
| "join_with sep (x # y # zs) = x @ sep @ join_with sep (y # zs)"

definition small_env ::
  "(string \<Rightarrow> raw_map option) \<Rightarrow> (string \<Rightarrow> mapping list option) \<Rightarrow> (string \<Rightarrow> string option) env" where
  "small_env parse decode =
     \<lparr>isAbsolute = (\<lambda>p. startsWith p ''/''),
      basename = (\<lambda>p. last (split CHR ''/'' p)),
      basename_ext = (\<lambda>p ext.
        let b = last (split CHR ''/'' p)
        in if endsWith b ext \<and> b \<noteq> ext then take (length b - length ext) b else b),
      dirname = (\<lambda>p. join_with ''/'' (butlast (split CHR ''/'' p))),
      join = join_with ''/'',
      resolve = (\<lambda>dir p. dir @ ''/'' @ p),
      relative = (\<lambda>from p. drop (Suc (length from)) p),
      existsSync = (\<lambda>fs p. fs p \<noteq> None),
      readFileSync = (\<lambda>fs p. case fs p of None \<Rightarrow> Inl (''ENOENT: '' @ p) | Some c \<Rightarrow> Inr c),
      writeFileSync = (\<lambda>fs p c. Inr (fs(p \<mapsto> c))),
      JSON_parse = (\<lambda>t. case parse t of None \<Rightarrow> Inl ''Unexpected token'' | Some r \<Rightarrow> Inr r),
      consumer_of_string = (\<lambda>t.
        case parse t of
          None \<Rightarrow> Inl ''Unexpected token''
        | Some r \<Rightarrow>
            (case decode (rm_mappings r) of
               None \<Rightarrow> Inl ''Malformed mapping''
             | Some segs \<Rightarrow> Inr (spec_consumer segs (rm_sources r) (rm_sourcesContent r)))),
      consumer_of_object = (\<lambda>r.
        case decode (rm_mappings r) of
          None \<Rightarrow> Inl ''Malformed mapping''
        | Some segs \<Rightarrow> Inr (spec_consumer segs (rm_sources r) (rm_sourcesContent r)))\<rparr>"

section \<open>Groups and required characters of a pattern\<close>

fun groups :: "regex \<Rightarrow> nat set" where
  "groups (Lit c) = {}"
| "groups (Plus cl) = {}"
| "groups (PlusLazy cl) = {}"
| "groups (Opt r) = groups r"
| "groups (Cat r1 r2) = groups r1 \<union> groups r2"
| "groups (Group n r) = insert n (groups r)"

text \<open>The characters every match of a pattern has to consume.\<close>

fun required :: "regex \<Rightarrow> char set" where
  "required (Lit c) = {c}"
| "required (Plus cl) = {}"
| "required (PlusLazy cl) = {}"
| "required (Opt r) = {}"
| "required (Cat r1 r2) = required r1 \<union> required r2"
| "required (Group n r) = required r"

section \<open>Failures, dropped segments and loadable content\<close>

text \<open>
  The ways in which the translation of one frame fails, as the specification
  names them (section 7), decided from the environment, and the reason each
  attaches to the frame.
\<close>

datatype failure = MissingDocument | ReadOrDecodeError string | ResolutionMiss

definition frame_failure :: "'fs env \<Rightarrow> 'fs \<Rightarrow> string \<Rightarrow> frame \<Rightarrow> failure option" where
  "frame_failure E fs path f =
     (if existsSync E fs path then
        (case readFileSync E fs path of
           Inl msg \<Rightarrow> Some (ReadOrDecodeError msg)
         | Inr content \<Rightarrow>
             (case consumer_of_string E content of
                Inl msg \<Rightarrow> Some (ReadOrDecodeError msg)
              | Inr c \<Rightarrow>
                  (case snd (resolve_frame c (lineNum f) (column f)) of
                     Inl msg \<Rightarrow> Some (ReadOrDecodeError msg)
                   | Inr p \<Rightarrow> if truthy (p_source p) then None else Some ResolutionMiss)))
      else Some MissingDocument)"

definition reason :: "string \<Rightarrow> failure \<Rightarrow> string" where
  "reason path x =
     (case x of
        MissingDocument \<Rightarrow> ''Source map not found: '' @ path
      | ReadOrDecodeError msg \<Rightarrow> ''Error reading source map: '' @ msg
      | ResolutionMiss \<Rightarrow> ''No original position found in source map'')"

text \<open>
  A segment of the second document that has nothing to chain: it carries no
  original position, or the resolver of the first document returns no source for
  its original position.
\<close>

definition dropped :: "consumer \<Rightarrow> mapping \<Rightarrow> bool" where
  "dropped A m =
     (if truthy (m_source m) then
        (case originalPositionFor A (originalLine m) (originalColumn m) of
           Inl e \<Rightarrow> False
         | Inr p \<Rightarrow> if truthy (p_source p) then False else True)
      else True)"

text \<open>The content of a file that exists and can be read.\<close>

definition readable :: "'fs env \<Rightarrow> 'fs \<Rightarrow> string \<Rightarrow> string option" where
  "readable E fs path =
     (if existsSync E fs path then
        (case readFileSync E fs path of Inr content \<Rightarrow> Some content | Inl e \<Rightarrow> None)
      else None)"

section \<open>The scenario of the specification\<close>

text \<open>
  Mapping A maps generated (5, 10) to (2, 3) in \<open>user.ts\<close> with the name
  \<open>userController\<close>; mapping B maps generated (98, 19) to (5, 10) with the name
  \<open>_0x3a4f2b\<close>; C is their composition. The documents are stored where the
  scripts look for them. A lists a second source, \<open>lost.ts\<close>, that no file holds.
\<close>

definition seg_A :: mapping where
  "seg_A =
     \<lparr>m_source = Some ''user.ts'', generatedLine = 5, generatedColumn = 10,
      originalLine = Some 2, originalColumn = Some 3, m_name = Some ''userController''\<rparr>"

definition seg_B :: mapping where
  "seg_B =
     \<lparr>m_source = Some ''user.js'', generatedLine = 98, generatedColumn = 19,
      originalLine = Some 5, originalColumn = Some 10, m_name = Some ''_0x3a4f2b''\<rparr>"

definition seg_C :: mapping where
  "seg_C =
     \<lparr>m_source = Some ''user.ts'', generatedLine = 98, generatedColumn = 19,
      originalLine = Some 2, originalColumn = Some 3, m_name = Some ''userController''\<rparr>"

definition raw_A :: raw_map where
  "raw_A =
     \<lparr>rm_file = Some ''user.js'', rm_sources = [''user.ts'', ''lost.ts''],
      rm_sourcesContent = None, rm_names = [''userController''], rm_mappings = ''A''\<rparr>"

definition raw_B :: raw_map where
  "raw_B =
     \<lparr>rm_file = None, rm_sources = [''user.js''],
      rm_sourcesContent = None, rm_names = [''_0x3a4f2b''], rm_mappings = ''B''\<rparr>"

definition raw_C :: raw_map where
  "raw_C =
     \<lparr>rm_file = Some ''user.js'', rm_sources = [''user.ts''],
      rm_sourcesContent = Some [Some ''line one\<newline>  throw new Error();  \<newline>''],
      rm_names = [''userController''], rm_mappings = ''C''\<rparr>"

definition scenario_parse :: "string \<Rightarrow> raw_map option" where
  "scenario_parse t =
     (if t = ''{A}'' then Some raw_A
      else if t = ''{B}'' then Some raw_B
      else if t = ''{C}'' then Some raw_C
      else None)"

definition scenario_decode :: "string \<Rightarrow> mapping list option" where
  "scenario_decode t =
     (if t = ''A'' then Some [seg_A]
      else if t = ''B'' then Some [seg_B]
      else if t = ''C'' then Some [seg_C]
      else None)"

definition scenario_env :: "(string \<Rightarrow> string option) env" where
  "scenario_env = small_env scenario_parse scenario_decode"

definition scenario_fs :: "string \<Rightarrow> string option" where
  "scenario_fs p =
     (if p = ''./dist-sourcemaps-backup/user.js.map'' then Some ''{A}''
      else if p = ''./dist-sourcemaps-backup/user.ts'' then Some ''const userController = 1''
      else if p = ''./dist-sourcemaps-backup/broken.js.map'' then Some ''not json''
      else if p = ''./dist/user.js.map'' then Some ''{B}''
      else if p = ''./dist/broken.js.map'' then Some ''{B}''
      else if p = ''sourcemaps/user.js.map'' then Some ''{C}''
      else if p = ''sourcemaps/broken.js.map'' then Some ''not json''
      else None)"

text \<open>
  The consumers of A and B, a segment of B without an original position, and a
  segment of B whose original position A does not cover.
\<close>

definition scenario_A :: consumer where
  "scenario_A = spec_consumer [seg_A] [''user.ts'', ''lost.ts''] None"

definition scenario_B :: consumer where
  "scenario_B = spec_consumer [seg_B] [''user.js''] None"

definition generated_only :: mapping where
  "generated_only =
     \<lparr>m_source = None, generatedLine = 1, generatedColumn = 0,
      originalLine = None, originalColumn = None, m_name = None\<rparr>"

definition unmapped_midpoint :: mapping where
  "unmapped_midpoint =
     \<lparr>m_source = Some ''user.js'', generatedLine = 99, generatedColumn = 4,
      originalLine = Some 6, originalColumn = Some 0, m_name = Some ''_0x5d''\<rparr>"

text \<open>
  The serialiser of the generator, on the scenario: the composed document is
  stored as \<open>{C}\<close>.
\<close>

definition scenario_toString :: "generator \<Rightarrow> string" where
  "scenario_toString g = (if map segment_of (g_mappings g) = [seg_C] then ''{C}'' else ''{}'')"

text \<open>
  A trace: the message, a frame whose mapping document is missing, a frame whose
  document cannot be decoded, and the frame of the scenario.
\<close>

definition trace_before :: string where
  "trace_before = ''Error: Test error''"

definition trace_gone :: string where
  "trace_gone = ''    at _0x1 (gone.js:1:1)''"

definition trace_rest :: string where
  "trace_rest =
     ''    at _0x2 (broken.js:3:4)'' @ [CHR 0x0A] @ ''    at _0x3a4f2b (user.js:98:19)''"

text \<open>
  A document whose names table holds the empty name: its segment at (98, 19)
  resolves to \<open>user.ts\<close>, line 2, column 3, with the name \<open>""\<close>.
\<close>

definition seg_unnamed :: mapping where
  "seg_unnamed =
     \<lparr>m_source = Some ''user.ts'', generatedLine = 98, generatedColumn = 19,
      originalLine = Some 2, originalColumn = Some 3, m_name = Some ''''\<rparr>"

definition raw_unnamed :: raw_map where
  "raw_unnamed =
     \<lparr>rm_file = Some ''empty.js'', rm_sources = [''user.ts''],
      rm_sourcesContent = None, rm_names = [''''], rm_mappings = ''E''\<rparr>"

definition empty_name_env :: "(string \<Rightarrow> string option) env" where
  "empty_name_env =
     small_env (\<lambda>t. if t = ''{E}'' then Some raw_unnamed else None)
       (\<lambda>t. if t = ''E'' then Some [seg_unnamed] else None)"

definition empty_name_fs :: "string \<Rightarrow> string option" where
  "empty_name_fs p = (if p = ''sourcemaps/empty.js.map'' then Some ''{E}'' else None)"

text \<open>
  A consumer whose only mapped entry is at column 0 of line 7 and which resolves
  exact positions only, as after a transform that collapsed the columns.
\<close>

definition column_zero_only :: consumer where
  "column_zero_only =
     \<lparr>originalPositionFor = (\<lambda>line col.
        if line = Some 7 \<and> col = Some 0
        then Inr \<lparr>p_source = Some ''user.ts'', p_line = Some 2, p_column = Some 3,
                  p_name = Some ''userController''\<rparr>
        else Inr \<lparr>p_source = None, p_line = None, p_column = None, p_name = None\<rparr>),
      eachMapping = [], sources = [''user.ts''], sourcesContent = None\<rparr>"

section \<open>The codec of the specification\<close>

text \<open>
  Modelled from the spec: the Segment of section 3, the decoded unit of a mapping
  document. The decoder and the encoder are the \<open>source-map\<close> package, which is
  not among the sources. Positions and indices are integers, since the deltas of
  the stream are signed.
\<close>

record segment =
  sg_generatedLine :: nat
  sg_generatedColumn :: int
  sg_sourceIndex :: "int option"
  sg_originalLine :: "int option"
  sg_originalColumn :: "int option"
  sg_nameIndex :: "int option"

text \<open>
  Modelled from the spec: the MappingDocument of section 3. The spec does not fix
  the notation of a delta (it calls it varint-style), nor the separator tokens:
  the encoded stream is modelled by what they carry, the list of its lines, each
  the list of its segments, each the list of its deltas.
\<close>

record mapping_document =
  md_version :: nat
  md_sources :: "string list"
  md_sourcesContent :: "string option list option"
  md_names :: "string list"
  md_mappings :: "int list list list"
  md_file :: "string option"

text \<open>
  Modelled from the spec: the error of the decoder (section 4.1), with the line
  and the index of the offending segment in it.
\<close>

datatype malformed = MalformedMapping nat nat

text \<open>
  Modelled from the spec: the previous values the deltas are relative to,
  document-wide, for the source index, the original line, the original column and
  the name index (section 3); all start at 0.
\<close>

record previous =
  prev_sourceIndex :: int
  prev_originalLine :: int
  prev_originalColumn :: int
  prev_nameIndex :: int

definition no_previous :: previous where
  "no_previous =
     \<lparr>prev_sourceIndex = 0, prev_originalLine = 0, prev_originalColumn = 0, prev_nameIndex = 0\<rparr>"

text \<open>
  Modelled from the spec: an index is in range of a table (section 4.1).
\<close>

definition in_table :: "int \<Rightarrow> 'a list \<Rightarrow> bool" where
  "in_table i table = (0 \<le> i \<and> i < int (length table))"

text \<open>
  Modelled from the spec: decoding one segment (sections 3 and 4.1). A segment
  has the delta of the generated column alone, or with the deltas of source
  index, original line and original column, or with the delta of the name index
  as well; any other number of fields, or an index outside its table, is
  malformed. The column is relative to the previous segment of the line, the
  other fields to the previous segment that had them.
\<close>

definition decode_segment ::
  "string list \<Rightarrow> string list \<Rightarrow> nat \<Rightarrow> int \<Rightarrow> previous \<Rightarrow> int list
   \<Rightarrow> (segment \<times> int \<times> previous) option" where
  "decode_segment srcs nms line col prev deltas =
     (case deltas of
        [dc] \<Rightarrow>
          Some (\<lparr>sg_generatedLine = line, sg_generatedColumn = col + dc,
                  sg_sourceIndex = None, sg_originalLine = None,
                  sg_originalColumn = None, sg_nameIndex = None\<rparr>,
                col + dc, prev)
      | [dc, ds, dl, dco] \<Rightarrow>
          if in_table (prev_sourceIndex prev + ds) srcs then
            Some (\<lparr>sg_generatedLine = line, sg_generatedColumn = col + dc,
                    sg_sourceIndex = Some (prev_sourceIndex prev + ds),
                    sg_originalLine = Some (prev_originalLine prev + dl),
                    sg_originalColumn = Some (prev_originalColumn prev + dco),
                    sg_nameIndex = None\<rparr>,
                  col + dc,
                  prev\<lparr>prev_sourceIndex := prev_sourceIndex prev + ds,
                       prev_originalLine := prev_originalLine prev + dl,
                       prev_originalColumn := prev_originalColumn prev + dco\<rparr>)
          else None
      | [dc, ds, dl, dco, dn] \<Rightarrow>
          if in_table (prev_sourceIndex prev + ds) srcs \<and> in_table (prev_nameIndex prev + dn) nms then
            Some (\<lparr>sg_generatedLine = line, sg_generatedColumn = col + dc,
                    sg_sourceIndex = Some (prev_sourceIndex prev + ds),
                    sg_originalLine = Some (prev_originalLine prev + dl),
                    sg_originalColumn = Some (prev_originalColumn prev + dco),
                    sg_nameIndex = Some (prev_nameIndex prev + dn)\<rparr>,
                  col + dc,
                  \<lparr>prev_sourceIndex = prev_sourceIndex prev + ds,
                   prev_originalLine = prev_originalLine prev + dl,
                   prev_originalColumn = prev_originalColumn prev + dco,
                   prev_nameIndex = prev_nameIndex prev + dn\<rparr>)
          else None
      | _ \<Rightarrow> None)"

text \<open>
  Modelled from the spec: decoding the stream, line by line (sections 3 and
  4.1). The column restarts at 0 with each line; the other previous values go on
  across the lines; the first malformed segment fails the whole decoding.
\<close>

fun decode_stream ::
  "string list \<Rightarrow> string list \<Rightarrow> nat \<Rightarrow> nat \<Rightarrow> int \<Rightarrow> previous \<Rightarrow> int list list list
   \<Rightarrow> malformed + segment list" where
  "decode_stream srcs nms line i col prev [] = Inr []"
| "decode_stream srcs nms line i col prev ([] # lines) =
     decode_stream srcs nms (Suc line) 0 0 prev lines"
| "decode_stream srcs nms line i col prev ((deltas # segs) # lines) =
     (case decode_segment srcs nms line col prev deltas of
        None \<Rightarrow> Inl (MalformedMapping line i)
      | Some (s, col', prev') \<Rightarrow>
          (case decode_stream srcs nms line (Suc i) col' prev' (segs # lines) of
             Inl e \<Rightarrow> Inl e
           | Inr rest \<Rightarrow> Inr (s # rest)))"

text \<open>
  Modelled from the spec: the Mapping Decoder (section 4.1), from a document to
  its segment sequence and its tables.
\<close>

definition decode :: "mapping_document \<Rightarrow> malformed + (segment list \<times> string list \<times> string list)" where
  "decode doc =
     (case decode_stream (md_sources doc) (md_names doc) 0 0 0 no_previous (md_mappings doc) of
        Inl e \<Rightarrow> Inl e
      | Inr segs \<Rightarrow> Inr (segs, md_sources doc, md_names doc))"

text \<open>
  Modelled from the spec: encoding one segment, the inverse of decoding it
  (section 4.4).
\<close>

definition encode_segment :: "int \<Rightarrow> previous \<Rightarrow> segment \<Rightarrow> int list \<times> int \<times> previous" where
  "encode_segment col prev s =
     (case (sg_sourceIndex s, sg_originalLine s, sg_originalColumn s) of
        (Some src, Some ol, Some oc) \<Rightarrow>
          (case sg_nameIndex s of
             None \<Rightarrow>
               ([sg_generatedColumn s - col, src - prev_sourceIndex prev,
                 ol - prev_originalLine prev, oc - prev_originalColumn prev],
                sg_generatedColumn s,
                prev\<lparr>prev_sourceIndex := src, prev_originalLine := ol, prev_originalColumn := oc\<rparr>)
           | Some n \<Rightarrow>
               ([sg_generatedColumn s - col, src - prev_sourceIndex prev,
                 ol - prev_originalLine prev, oc - prev_originalColumn prev,
                 n - prev_nameIndex prev],
                sg_generatedColumn s,
                \<lparr>prev_sourceIndex = src, prev_originalLine = ol, prev_originalColumn = oc,
                 prev_nameIndex = n\<rparr>))
      | _ \<Rightarrow> ([sg_generatedColumn s - col], sg_generatedColumn s, prev))"

text \<open>
  Modelled from the spec: encoding a segment sequence that is ordered by
  generated line (section 4.4). The segments of a line go into that line, and
  lines without segments are empty; the encoding stops at a segment that is out
  of order.
\<close>

function encode_stream :: "nat \<Rightarrow> int \<Rightarrow> previous \<Rightarrow> segment list \<Rightarrow> int list list list" where
  "encode_stream line col prev [] = [[]]"
| "encode_stream line col prev (s # segs) =
     (if sg_generatedLine s = line then
        (case encode_segment col prev s of
           (deltas, col', prev') \<Rightarrow>
             (case encode_stream line col' prev' segs of
                [] \<Rightarrow> [[deltas]]
              | l # ls \<Rightarrow> (deltas # l) # ls))
      else if line < sg_generatedLine s then [] # encode_stream (Suc line) 0 prev (s # segs)
      else [[]])"
  by pat_completeness auto
termination
  by (relation "measure (\<lambda>(line, col, prev, segs).
        length segs + (foldr max (map sg_generatedLine segs) 0 - line))")
    (auto simp: max_def)

text \<open>
  Modelled from the spec: the Mapping Encoder (section 4.4), from a segment
  sequence and the tables to the document.
\<close>

definition encode ::
  "segment list \<Rightarrow> string list \<Rightarrow> string list \<Rightarrow> string option list option \<Rightarrow> string option
   \<Rightarrow> mapping_document" where
  "encode segs srcs nms contents file =
     \<lparr>md_version = 3, md_sources = srcs, md_sourcesContent = contents, md_names = nms,
      md_mappings = encode_stream 0 0 no_previous segs, md_file = file\<rparr>"

text \<open>A document with two sources, one name, an empty line and a trailing empty line.\<close>

definition sample_document :: mapping_document where
  "sample_document =
     \<lparr>md_version = 3, md_sources = [''a.ts'', ''b.ts''], md_sourcesContent = None,
      md_names = [''f''],
      md_mappings = [[[0, 0, 0, 0, 0], [4], [2, 1, 3, - 2]], [], [[1, - 1, 1, 5]], []],
      md_file = None\<rparr>"

definition sample_segments :: "segment list" where
  "sample_segments =
     [\<lparr>sg_generatedLine = 0, sg_generatedColumn = 0, sg_sourceIndex = Some 0,
       sg_originalLine = Some 0, sg_originalColumn = Some 0, sg_nameIndex = Some 0\<rparr>,
      \<lparr>sg_generatedLine = 0, sg_generatedColumn = 4, sg_sourceIndex = None,
       sg_originalLine = None, sg_originalColumn = None, sg_nameIndex = None\<rparr>,
      \<lparr>sg_generatedLine = 0, sg_generatedColumn = 6, sg_sourceIndex = Some 1,
       sg_originalLine = Some 3, sg_originalColumn = Some (- 2), sg_nameIndex = None\<rparr>,
      \<lparr>sg_generatedLine = 2, sg_generatedColumn = 1, sg_sourceIndex = Some 0,
       sg_originalLine = Some 4, sg_originalColumn = Some 3, sg_nameIndex = None\<rparr>]"

section \<open>Properties of the frame pattern\<close>

lemma matches_rest: "(s', c') \<in> set (matches r s c) \<Longrightarrow> \<exists>k. s' = drop k s"
proof (induction r arbitrary: s c s' c')
  case (Lit x)
  then show ?case
    by (cases s) (auto split: if_splits intro: exI [of _ 1])
next
  case (Cat r1 r2)
  from Cat.prems obtain s1 c1 where
    1: "(s1, c1) \<in> set (matches r1 s c)" and 2: "(s', c') \<in> set (matches r2 s1 c1)"
    by auto
  from Cat.IH(1) [OF 1] obtain k1 where "s1 = drop k1 s" ..
  moreover from Cat.IH(2) [OF 2] obtain k2 where "s' = drop k2 s1" ..
  ultimately have "s' = drop (k2 + k1) s" by simp
  then show ?case ..
next
  case (Opt r)
  then show ?case by (auto intro: exI [of _ 0])
qed auto

lemma matches_rest_set: "(s', c') \<in> set (matches r s c) \<Longrightarrow> set s' \<subseteq> set s"
  using matches_rest [of s' c' r s c] by (auto dest: in_set_dropD)

lemma matches_other_group:
  "(s', c') \<in> set (matches r s c) \<Longrightarrow> n \<notin> groups r \<Longrightarrow> c' n = c n"
proof (induction r arbitrary: s c s' c')
  case (Lit x)
  then show ?case by (cases s) (auto split: if_splits)
next
  case (Cat r1 r2)
  from Cat.prems(1) obtain s1 c1 where
    1: "(s1, c1) \<in> set (matches r1 s c)" and 2: "(s', c') \<in> set (matches r2 s1 c1)"
    by auto
  from Cat.IH(1) [OF 1] Cat.IH(2) [OF 2] Cat.prems(2) show ?case by simp
qed auto

lemma matches_required:
  "(s', c') \<in> set (matches r s c) \<Longrightarrow> x \<in> required r \<Longrightarrow> x \<in> set s"
proof (induction r arbitrary: s c s' c')
  case (Lit y)
  then show ?case by (cases s) (auto split: if_splits)
next
  case (Cat r1 r2)
  from Cat.prems(1) obtain s1 c1 where
    1: "(s1, c1) \<in> set (matches r1 s c)" and 2: "(s', c') \<in> set (matches r2 s1 c1)"
    by auto
  from Cat.prems(2) consider "x \<in> required r1" | "x \<in> required r2" by auto
  then show ?case
  proof cases
    case 1
    with Cat.IH(1) \<open>(s1, c1) \<in> set (matches r1 s c)\<close> show ?thesis by blast
  next
    case 2
    with Cat.IH(2) \<open>(s', c') \<in> set (matches r2 s1 c1)\<close> have "x \<in> set s1" by blast
    with matches_rest_set [OF \<open>(s1, c1) \<in> set (matches r1 s c)\<close>] show ?thesis by blast
  qed
qed auto

lemma exec_Some:
  "exec r s = Some caps \<Longrightarrow> \<exists>k s'. (s', caps) \<in> set (matches r (drop k s) (\<lambda>_. None))"
proof (induction s)
  case Nil
  then show ?case by (auto split: list.splits)
next
  case (Cons a s)
  show ?case
  proof (cases "matches r (a # s) (\<lambda>_. None)")
    case Nil
    with Cons.prems have "exec r s = Some caps" by simp
    from Cons.IH [OF this] obtain k s' where "(s', caps) \<in> set (matches r (drop k s) (\<lambda>_. None))"
      by blast
    then have "(s', caps) \<in> set (matches r (drop (Suc k) (a # s)) (\<lambda>_. None))" by simp
    then show ?thesis by blast
  next
    case (Cons x xs)
    with Cons.prems have "(fst x, caps) \<in> set (matches r (drop 0 (a # s)) (\<lambda>_. None))"
      by (cases x) auto
    then show ?thesis by blast
  qed
qed

lemma matches_CatE:
  assumes "(s', c') \<in> set (matches (Cat r1 r2) s c)"
  obtains s1 c1 where "(s1, c1) \<in> set (matches r1 s c)" and "(s', c') \<in> set (matches r2 s1 c1)"
  using assms by auto

lemma frame_pattern_group_1:
  assumes m: "(s', c') \<in> set (matches frame_pattern s c)"
    and c: "c 1 = None" and s: "CHR ''('' \<notin> set s"
  shows "c' 1 = None"
proof -
  define G where "G = cat_list [Group 1 (PlusLazy Dot), Plus Space, Lit CHR ''('']"
  define R where "R = cat_list [Group 2 (PlusLazy Dot), Lit CHR '':'',
        Group 3 (Plus Digit), Lit CHR '':'', Group 4 (Plus Digit), Opt (Lit CHR '')'')]"
  have fp: "frame_pattern =
      Cat (Lit CHR ''a'') (Cat (Lit CHR ''t'') (Cat (Plus Space) (Cat (Opt G) R)))"
    by (simp add: frame_pattern_def G_def R_def)
  from m obtain sa ca where a: "(sa, ca) \<in> set (matches (Lit CHR ''a'') s c)"
    and ra: "(s', c') \<in> set (matches (Cat (Lit CHR ''t'') (Cat (Plus Space) (Cat (Opt G) R))) sa ca)"
    unfolding fp by (rule matches_CatE)
  from ra obtain st ct where t: "(st, ct) \<in> set (matches (Lit CHR ''t'') sa ca)"
    and rt: "(s', c') \<in> set (matches (Cat (Plus Space) (Cat (Opt G) R)) st ct)"
    by (rule matches_CatE)
  from rt obtain s1 c1 where sp: "(s1, c1) \<in> set (matches (Plus Space) st ct)"
    and rs: "(s', c') \<in> set (matches (Cat (Opt G) R) s1 c1)"
    by (rule matches_CatE)
  from rs obtain s2 c2 where 3: "(s2, c2) \<in> set (matches (Opt G) s1 c1)"
    and 4: "(s', c') \<in> set (matches R s2 c2)"
    by (rule matches_CatE)
  have "c1 1 = c 1"
    using matches_other_group [OF a, of 1] matches_other_group [OF t, of 1]
      matches_other_group [OF sp, of 1] by simp
  have "set s1 \<subseteq> set s"
    using matches_rest_set [OF a] matches_rest_set [OF t] matches_rest_set [OF sp] by blast
  have "c' 1 = c2 1"
    using matches_other_group [OF 4, of 1] by (simp add: R_def)
  from 3 consider "(s2, c2) \<in> set (matches G s1 c1)" | "s2 = s1" "c2 = c1" by auto
  then show ?thesis
  proof cases
    case 1
    from matches_required [OF 1, of "CHR ''(''"] have "CHR ''('' \<in> set s1" by (simp add: G_def)
    with \<open>set s1 \<subseteq> set s\<close> s show ?thesis by blast
  next
    case 2
    with \<open>c' 1 = c2 1\<close> \<open>c1 1 = c 1\<close> c show ?thesis by simp
  qed
qed

lemma set_trim: "set (trim s) \<subseteq> set s"
  by (auto simp: trim_def dest!: set_dropWhileD)

lemma parse_frame_anonymous:
  assumes "parse_frame line = Some f" and "CHR ''('' \<notin> set line"
  shows "functionName f = ''<anonymous>''"
proof -
  from assms(1) obtain caps where e: "exec frame_pattern (trim line) = Some caps"
    and f: "frame_of_match caps = Some f"
    by (auto simp: parse_frame_def split: option.splits)
  from exec_Some [OF e] obtain k s' where
    "(s', caps) \<in> set (matches frame_pattern (drop k (trim line)) (\<lambda>_. None))" by blast
  moreover have "CHR ''('' \<notin> set (drop k (trim line))"
    using assms(2) set_trim [of line] by (auto dest: in_set_dropD)
  ultimately have "caps 1 = None" using frame_pattern_group_1 [of s' caps _ "\<lambda>_. None"] by simp
  with f show ?thesis
    by (auto simp: frame_of_match_def Let_def split: option.splits if_splits)
qed

lemma concat_map_first:
  assumes "\<forall>x \<in> set xs. f x = []" and "f y = z # zs"
  shows "\<exists>rest. concat (map f (xs @ y # ys)) = z # rest"
proof -
  from assms(1) have c: "concat (map f xs) = []" by (induction xs) simp_all
  show ?thesis
    by (intro exI [of _ "zs @ concat (map f ys)"]) (simp add: c assms(2))
qed

lemma matches_Cat_first:
  assumes "matches r1 s caps = xs @ (s1, c1) # ys"
    and "\<forall>(s', c') \<in> set xs. matches r2 s' c' = []"
    and "matches r2 s1 c1 = z # zs"
  shows "\<exists>rest. matches (Cat r1 r2) s caps = z # rest"
proof -
  from assms(2) have "\<forall>x \<in> set xs. (\<lambda>(s', caps'). matches r2 s' caps') x = []" by auto
  moreover from assms(3) have "(\<lambda>(s', caps'). matches r2 s' caps') (s1, c1) = z # zs" by simp
  ultimately show ?thesis
    unfolding matches.simps assms(1) by (rule concat_map_first)
qed

lemma matches_Cat_single:
  "matches r1 s caps = [(s1, c1)] \<Longrightarrow> matches (Cat r1 r2) s caps = matches r2 s1 c1"
  by simp

lemma matches_none_without_required:
  "x \<in> required r \<Longrightarrow> x \<notin> set s \<Longrightarrow> matches r s c = []"
proof (cases "matches r s c")
  case Nil
  then show ?thesis .
next
  case (Cons a list)
  assume "x \<in> required r" "x \<notin> set s"
  moreover from Cons have "(fst a, snd a) \<in> set (matches r s c)" by simp
  ultimately show ?thesis using matches_required by blast
qed

lemma takeWhile_all: "\<forall>x \<in> set xs. P x \<Longrightarrow> takeWhile P (xs @ ys) = xs @ takeWhile P ys"
  by (induction xs) simp_all

lemma upt_split: "1 \<le> m \<Longrightarrow> m \<le> n \<Longrightarrow> [1 ..< Suc n] = [1 ..< m] @ m # [Suc m ..< Suc n]"
proof -
  assume "1 \<le> m" "m \<le> n"
  then have "[1 ..< Suc n] = [1 ..< m] @ [m ..< Suc n]"
    using upt_add_eq_append [of 1 m "Suc n - m"] by simp
  also from \<open>m \<le> n\<close> have "[m ..< Suc n] = m # [Suc m ..< Suc n]"
    by (simp add: upt_conv_Cons)
  finally show ?thesis .
qed

lemma trim_id:
  assumes "s \<noteq> []" "\<not> is_space (hd s)" "\<not> is_space (last s)"
    and "\<forall>ch \<in> set ind. is_space ch"
  shows "trim (ind @ s) = s"
proof -
  from assms have "dropWhile is_space (ind @ s) = s"
    by (cases s) (simp_all add: dropWhile_append3 dropWhile_append)
  moreover from assms have "dropWhile is_space (rev s) = rev s"
    by (cases s rule: rev_cases) simp_all
  ultimately show ?thesis by (simp add: trim_def)
qed

lemma digit_not_special:
  "is_digit ch \<Longrightarrow> \<not> is_space ch \<and> ch \<noteq> CHR '':'' \<and> ch \<noteq> CHR ''('' \<and> \<not> is_line_terminator ch"
  by (auto simp: is_digit_def is_space_def is_line_terminator_def)

lemma space_not_line_terminator: "\<not> is_space ch \<Longrightarrow> \<not> is_line_terminator ch"
  by (auto simp: is_space_def is_line_terminator_def)

lemma colon_not_digit: "\<not> is_digit CHR '':''" "\<not> is_space CHR '':''" "\<not> is_line_terminator CHR '':''"
  by (simp_all add: is_digit_def is_space_def is_line_terminator_def)

lemma group_plus_first:
  assumes "w \<noteq> []" and "\<forall>ch \<in> set w. in_class cl ch"
    and "takeWhile (in_class cl) t = []"
  shows "\<exists>rest. matches (Group n (Plus cl)) (w @ t) caps = (t, caps(n \<mapsto> w)) # rest"
proof -
  from assms(2,3) have tw: "takeWhile (in_class cl) (w @ t) = w"
    by (simp add: takeWhile_all)
  from assms(1) obtain m where m: "length w = Suc m" by (cases w) auto
  have "rev [1 ..< Suc (length w)] = length w # rev [1 ..< length w]"
    by (simp add: m)
  then show ?thesis
    by (simp add: tw)
qed

lemma group_lazy_split:
  assumes "w \<noteq> []" and "\<forall>ch \<in> set w. in_class cl ch"
  shows "\<exists>xs ys. matches (Group n (PlusLazy cl)) (w @ t) caps = xs @ (t, caps(n \<mapsto> w)) # ys
     \<and> (\<forall>(s', c') \<in> set xs. \<exists>k. 1 \<le> k \<and> k < length w \<and> s' = drop k w @ t)"
proof -
  let ?N = "length (takeWhile (in_class cl) (w @ t))"
  let ?f = "\<lambda>k. (drop k (w @ t), caps(n \<mapsto> take (length (w @ t) - length (drop k (w @ t))) (w @ t)))"
  from assms(2) have "?N = length w + length (takeWhile (in_class cl) t)"
    by (simp add: takeWhile_all)
  then have le: "length w \<le> ?N" by simp
  from assms(1) have one: "1 \<le> length w" by (cases w) auto
  have "matches (Group n (PlusLazy cl)) (w @ t) caps = map ?f [1 ..< Suc ?N]"
    by (simp add: comp_def)
  also have "\<dots> = map ?f [1 ..< length w] @ ?f (length w) # map ?f [Suc (length w) ..< Suc ?N]"
    by (subst upt_split [OF one le]) simp
  also have "?f (length w) = (t, caps(n \<mapsto> w))" by simp
  finally have "matches (Group n (PlusLazy cl)) (w @ t) caps
      = map ?f [1 ..< length w] @ (t, caps(n \<mapsto> w)) # map ?f [Suc (length w) ..< Suc ?N]" .
  moreover have "\<forall>(s', c') \<in> set (map ?f [1 ..< length w]).
      \<exists>k. 1 \<le> k \<and> k < length w \<and> s' = drop k w @ t"
    by auto
  ultimately show ?thesis by blast
qed

lemma matches_Lit_mismatch: "s \<noteq> [] \<Longrightarrow> hd s \<noteq> x \<Longrightarrow> matches (Cat (Lit x) r) s caps = []"
  by (cases s) simp_all

lemma matches_Lit_match: "matches (Cat (Lit x) r) (x # s) caps = matches r s caps"
  by simp

lemma line_and_column_first:
  assumes l: "l \<noteq> []" "\<forall>ch \<in> set l. is_digit ch"
    and c: "c \<noteq> []" "\<forall>ch \<in> set c. is_digit ch"
  shows "\<exists>rest. matches
      (Cat (Lit CHR '':'') (Cat (Group 3 (Plus Digit))
        (Cat (Lit CHR '':'') (Cat (Group 4 (Plus Digit)) (Opt (Lit CHR '')''))))))
      (CHR '':'' # l @ CHR '':'' # c) caps
    = ([], caps(3 \<mapsto> l, 4 \<mapsto> c)) # rest"
proof -
  let ?T4 = "Cat (Group 4 (Plus Digit)) (Opt (Lit CHR '')''))"
  let ?T3 = "Cat (Lit CHR '':'') ?T4"
  let ?T2 = "Cat (Group 3 (Plus Digit)) ?T3"
  let ?caps3 = "caps(3 \<mapsto> l)"
  have none: "\<forall>(s', c') \<in> set []. matches r s' c' = []" for r
    by simp
  from group_plus_first [of c Digit "[]" 4 ?caps3] c obtain r4 where
    "matches (Group 4 (Plus Digit)) c ?caps3 = ([], ?caps3(4 \<mapsto> c)) # r4"
    by auto
  then have g4: "matches (Group 4 (Plus Digit)) c ?caps3 = [] @ ([], ?caps3(4 \<mapsto> c)) # r4"
    by (simp only: append_Nil)
  have rp: "matches (Opt (Lit CHR '')'')) [] (?caps3(4 \<mapsto> c)) = ([], ?caps3(4 \<mapsto> c)) # []"
    by simp
  from matches_Cat_first [OF g4 none rp] obtain r4' where
    t4: "matches ?T4 c ?caps3 = ([], ?caps3(4 \<mapsto> c)) # r4'" ..
  have t3: "matches ?T3 (CHR '':'' # c) ?caps3 = ([], ?caps3(4 \<mapsto> c)) # r4'"
    unfolding matches_Lit_match by (rule t4)
  from group_plus_first [of l Digit "CHR '':'' # c" 3 caps] l obtain r3 where
    "matches (Group 3 (Plus Digit)) (l @ CHR '':'' # c) caps = (CHR '':'' # c, ?caps3) # r3"
    by (auto simp: colon_not_digit)
  then have g3: "matches (Group 3 (Plus Digit)) (l @ CHR '':'' # c) caps
      = [] @ (CHR '':'' # c, ?caps3) # r3"
    by (simp only: append_Nil)
  from matches_Cat_first [OF g3 none t3] obtain r2 where
    "matches ?T2 (l @ CHR '':'' # c) caps = ([], ?caps3(4 \<mapsto> c)) # r2" ..
  then show ?thesis
    unfolding matches_Lit_match by blast
qed

lemma path_line_column_first:
  assumes p: "p \<noteq> []" "\<forall>ch \<in> set p. \<not> is_space ch \<and> ch \<noteq> CHR ''(''"
    and colon: "\<forall>k < length p. p ! k = CHR '':'' \<longrightarrow> Suc k < length p \<and> \<not> is_digit (p ! Suc k)"
    and l: "l \<noteq> []" "\<forall>ch \<in> set l. is_digit ch"
    and c: "c \<noteq> []" "\<forall>ch \<in> set c. is_digit ch"
  shows "\<exists>rest. matches frame_pattern (''at '' @ p @ CHR '':'' # l @ CHR '':'' # c) caps
    = ([], caps(2 \<mapsto> p, 3 \<mapsto> l, 4 \<mapsto> c)) # rest"
proof -
  define t where "t = CHR '':'' # l @ CHR '':'' # c"
  define G where "G = cat_list [Group 1 (PlusLazy Dot), Plus Space, Lit CHR ''('']"
  define T where "T = Cat (Lit CHR '':'') (Cat (Group 3 (Plus Digit))
        (Cat (Lit CHR '':'') (Cat (Group 4 (Plus Digit)) (Opt (Lit CHR '')'')))))"
  have fp: "frame_pattern =
      Cat (Lit CHR ''a'') (Cat (Lit CHR ''t'') (Cat (Plus Space)
        (Cat (Opt G) (Cat (Group 2 (PlusLazy Dot)) T))))"
    by (simp add: frame_pattern_def G_def T_def)
  from p obtain x xs where px: "p = x # xs" by (cases p) auto
  with p have x: "\<not> is_space x" by simp
  have sp: "matches (Plus Space) (CHR '' '' # p @ t) caps = [(p @ t, caps)]"
    using x by (simp add: px is_space_def)
  have "CHR ''('' \<notin> set (p @ t)"
    using p l c by (auto simp: t_def dest: digit_not_special)
  then have "matches G (p @ t) caps = []"
    by (intro matches_none_without_required [of "CHR ''(''"]) (simp_all add: G_def)
  then have og: "matches (Opt G) (p @ t) caps = [(p @ t, caps)]"
    by simp
  from p have dot: "\<forall>ch \<in> set p. in_class Dot ch"
    by (auto dest: space_not_line_terminator)
  from group_lazy_split [OF p(1) dot, of 2 t caps] obtain ys zs where
    g2: "matches (Group 2 (PlusLazy Dot)) (p @ t) caps = ys @ (t, caps(2 \<mapsto> p)) # zs"
    and ys: "\<forall>(s', c') \<in> set ys. \<exists>k. 1 \<le> k \<and> k < length p \<and> s' = drop k p @ t"
    by blast
  have fail: "\<forall>(s', c') \<in> set ys. matches T s' c' = []"
  proof (clarify)
    fix s' c' assume "(s', c') \<in> set ys"
    with ys obtain k where k: "k < length p" "s' = drop k p @ t" by blast
    show "matches T s' c' = []"
    proof (cases "p ! k = CHR '':''")
      case False
      from k have "s' \<noteq> []" by simp
      moreover from k False have "hd s' \<noteq> CHR '':''" by (simp add: hd_drop_conv_nth)
      ultimately show ?thesis
        unfolding T_def by (rule matches_Lit_mismatch)
    next
      case True
      with colon k(1) have n: "Suc k < length p" "\<not> is_digit (p ! Suc k)" by auto
      from k(1) True have "drop k p = CHR '':'' # drop (Suc k) p"
        by (metis Cons_nth_drop_Suc)
      moreover from n(1) have "drop (Suc k) p = p ! Suc k # drop (Suc (Suc k)) p"
        by (metis Cons_nth_drop_Suc)
      ultimately have s': "s' = CHR '':'' # p ! Suc k # drop (Suc (Suc k)) p @ t"
        using k(2) by simp
      from n(2) have "matches (Group 3 (Plus Digit)) (p ! Suc k # drop (Suc (Suc k)) p @ t) c' = []"
        by simp
      then show ?thesis
        unfolding T_def s' matches_Lit_match by simp
    qed
  qed
  from line_and_column_first [OF l c, of "caps(2 \<mapsto> p)"] obtain r where
    tl: "matches T t (caps(2 \<mapsto> p)) = ([], caps(2 \<mapsto> p, 3 \<mapsto> l, 4 \<mapsto> c)) # r"
    unfolding T_def t_def by blast
  from matches_Cat_first [OF g2 fail tl] obtain rest where
    "matches (Cat (Group 2 (PlusLazy Dot)) T) (p @ t) caps
      = ([], caps(2 \<mapsto> p, 3 \<mapsto> l, 4 \<mapsto> c)) # rest" ..
  then have "matches frame_pattern (''at '' @ p @ t) caps
      = ([], caps(2 \<mapsto> p, 3 \<mapsto> l, 4 \<mapsto> c)) # rest"
    unfolding fp
    by (simp only: matches_Lit_match matches_Cat_single [OF sp] matches_Cat_single [OF og]
        append_Cons append_Nil)
  then show ?thesis unfolding t_def by auto
qed

lemma parse_plain_frame:
  assumes p: "p \<noteq> []" "\<forall>ch \<in> set p. \<not> is_space ch \<and> ch \<noteq> CHR ''(''"
    and colon: "\<forall>k < length p. p ! k = CHR '':'' \<longrightarrow> Suc k < length p \<and> \<not> is_digit (p ! Suc k)"
    and l: "l \<noteq> []" "\<forall>ch \<in> set l. is_digit ch"
    and c: "c \<noteq> []" "\<forall>ch \<in> set c. is_digit ch"
    and ind: "\<forall>ch \<in> set ind. is_space ch"
  shows "parse_frame (ind @ ''at '' @ p @ '':'' @ l @ '':'' @ c)
    = Some \<lparr>functionName = ''<anonymous>'', filePath = p, lineNum = parseInt l, column = parseInt c\<rparr>"
proof -
  let ?s = "''at '' @ p @ CHR '':'' # l @ CHR '':'' # c"
  from c have "\<not> is_space (last c)"
    using digit_not_special last_in_set by blast
  with c(1) have "trim (ind @ ?s) = ?s"
    by (intro trim_id ind) (simp_all add: is_space_def)
  moreover from path_line_column_first [OF p colon l c, of "\<lambda>_. None"] obtain rest where
    "matches frame_pattern ?s (\<lambda>_. None) = ([], (\<lambda>_. None)(2 \<mapsto> p, 3 \<mapsto> l, 4 \<mapsto> c)) # rest" ..
  then have "exec frame_pattern ?s = Some ((\<lambda>_. None)(2 \<mapsto> p, 3 \<mapsto> l, 4 \<mapsto> c))"
    by simp
  moreover from p have "trim p = p"
    using trim_id [of p "[]"] by (simp add: hd_in_set)
  ultimately show ?thesis
    using p(1) l(1) c(1) by (simp add: parse_frame_def frame_of_match_def)
qed


lemma path_without_colon:
  "CHR '':'' \<notin> set p \<Longrightarrow>
   \<forall>k < length p. p ! k = CHR '':'' \<longrightarrow> Suc k < length p \<and> \<not> is_digit (p ! Suc k)"
  by (metis nth_mem)

text \<open>
  Claim C6. The frame pattern parses the line
  \<^verbatim>\<open>    at _0x3a4f2b (d:\dist\user.js:98:19)\<close> to the function name \<open>_0x3a4f2b\<close>,
  the file path \<^verbatim>\<open>d:\dist\user.js\<close>, line 98 and column 19. A frame without
  parentheses parses with the function name \<open><anonymous>\<close>: the frame
  \<^verbatim>\<open>at C:\path\to\file.js:12:5\<close> with its drive letter and back-slashes, every
  indented frame \<open>at path:line:col\<close> whose path is not empty, has no white
  space or opening parenthesis, and has a colon only before a character that is
  not a digit, and every line without an opening parenthesis that parses as a
  frame at all. The line \<open>Error: Test error\<close> does
  not parse as a frame.
\<close>

theorem frame_pattern_scenarios:
  "parse_frame (''    at _0x3a4f2b (d:'' @ [CHR 0x5C] @ ''dist'' @ [CHR 0x5C] @ ''user.js:98:19)'')
     = Some \<lparr>functionName = ''_0x3a4f2b'',
             filePath = ''d:'' @ [CHR 0x5C] @ ''dist'' @ [CHR 0x5C] @ ''user.js'',
             lineNum = 98, column = 19\<rparr>
   \<and> parse_frame (''    at C:'' @ [CHR 0x5C] @ ''path'' @ [CHR 0x5C] @ ''to'' @ [CHR 0x5C] @ ''file.js:12:5'')
     = Some \<lparr>functionName = ''<anonymous>'',
             filePath = ''C:'' @ [CHR 0x5C] @ ''path'' @ [CHR 0x5C] @ ''to'' @ [CHR 0x5C] @ ''file.js'',
             lineNum = 12, column = 5\<rparr>
   \<and> (\<forall>ind p l c.
        (\<forall>ch \<in> set ind. is_space ch)
        \<and> p \<noteq> [] \<and> (\<forall>ch \<in> set p. \<not> is_space ch \<and> ch \<noteq> CHR ''('')
        \<and> (\<forall>k < length p. p ! k = CHR '':'' \<longrightarrow>
              Suc k < length p \<and> \<not> is_digit (p ! Suc k))
        \<and> l \<noteq> [] \<and> (\<forall>ch \<in> set l. is_digit ch)
        \<and> c \<noteq> [] \<and> (\<forall>ch \<in> set c. is_digit ch) \<longrightarrow>
        parse_frame (ind @ ''at '' @ p @ '':'' @ l @ '':'' @ c)
          = Some \<lparr>functionName = ''<anonymous>'', filePath = p,
                  lineNum = parseInt l, column = parseInt c\<rparr>)
   \<and> (\<forall>line f. CHR ''('' \<notin> set line \<longrightarrow> parse_frame line = Some f
        \<longrightarrow> functionName f = ''<anonymous>'')
   \<and> parse_frame ''Error: Test error'' = None"
proof (intro conjI allI impI)
  show "parse_frame (''    at _0x3a4f2b (d:'' @ [CHR 0x5C] @ ''dist'' @ [CHR 0x5C] @ ''user.js:98:19)'')
     = Some \<lparr>functionName = ''_0x3a4f2b'',
             filePath = ''d:'' @ [CHR 0x5C] @ ''dist'' @ [CHR 0x5C] @ ''user.js'',
             lineNum = 98, column = 19\<rparr>"
    by code_simp
  show "parse_frame (''    at C:'' @ [CHR 0x5C] @ ''path'' @ [CHR 0x5C] @ ''to'' @ [CHR 0x5C] @ ''file.js:12:5'')
     = Some \<lparr>functionName = ''<anonymous>'',
             filePath = ''C:'' @ [CHR 0x5C] @ ''path'' @ [CHR 0x5C] @ ''to'' @ [CHR 0x5C] @ ''file.js'',
             lineNum = 12, column = 5\<rparr>"
    by code_simp
  show "parse_frame ''Error: Test error'' = None"
    by code_simp
  show "functionName f = ''<anonymous>''"
    if "CHR ''('' \<notin> set line" "parse_frame line = Some f" for line f
    using that parse_frame_anonymous by blast
  show "parse_frame (ind @ ''at '' @ p @ '':'' @ l @ '':'' @ c)
          = Some \<lparr>functionName = ''<anonymous>'', filePath = p,
                  lineNum = parseInt l, column = parseInt c\<rparr>"
    if "(\<forall>ch \<in> set ind. is_space ch)
        \<and> p \<noteq> [] \<and> (\<forall>ch \<in> set p. \<not> is_space ch \<and> ch \<noteq> CHR ''('')
        \<and> (\<forall>k < length p. p ! k = CHR '':'' \<longrightarrow>
              Suc k < length p \<and> \<not> is_digit (p ! Suc k))
        \<and> l \<noteq> [] \<and> (\<forall>ch \<in> set l. is_digit ch)
        \<and> c \<noteq> [] \<and> (\<forall>ch \<in> set c. is_digit ch)" for ind p l c
    using that by (intro parse_plain_frame) simp_all
qed

theorem frame_pattern_scenarios_witness:
  "CHR ''('' \<notin> set ''    at file.js:1:234''
   \<and> parse_frame ''    at file.js:1:234''
       = Some \<lparr>functionName = ''<anonymous>'', filePath = ''file.js'', lineNum = 1, column = 234\<rparr>
   \<and> functionName \<lparr>functionName = ''<anonymous>'', filePath = ''file.js'', lineNum = 1, column = 234\<rparr>
       = ''<anonymous>''"
proof -
  have 1: "CHR ''('' \<notin> set ''    at file.js:1:234''" by simp
  have "CHR '':'' \<notin> set ''file.js''" by simp
  then have k: "\<forall>k < length ''file.js''. ''file.js'' ! k = CHR '':'' \<longrightarrow>
      Suc k < length ''file.js'' \<and> \<not> is_digit (''file.js'' ! Suc k)"
    by (rule path_without_colon)
  have "(\<forall>ch \<in> set ''    ''. is_space ch)
        \<and> ''file.js'' \<noteq> []
        \<and> (\<forall>ch \<in> set ''file.js''. \<not> is_space ch \<and> ch \<noteq> CHR ''('')"
    and "''1'' \<noteq> [] \<and> (\<forall>ch \<in> set ''1''. is_digit ch)
        \<and> ''234'' \<noteq> [] \<and> (\<forall>ch \<in> set ''234''. is_digit ch)"
    by (simp_all add: is_space_def is_digit_def)
  with k have h: "(\<forall>ch \<in> set ''    ''. is_space ch)
        \<and> ''file.js'' \<noteq> []
        \<and> (\<forall>ch \<in> set ''file.js''. \<not> is_space ch \<and> ch \<noteq> CHR ''('')
        \<and> (\<forall>k < length ''file.js''. ''file.js'' ! k = CHR '':'' \<longrightarrow>
              Suc k < length ''file.js'' \<and> \<not> is_digit (''file.js'' ! Suc k))
        \<and> ''1'' \<noteq> [] \<and> (\<forall>ch \<in> set ''1''. is_digit ch)
        \<and> ''234'' \<noteq> [] \<and> (\<forall>ch \<in> set ''234''. is_digit ch)"
    by (intro conjI) (erule conjE | assumption)+
  note plain = frame_pattern_scenarios [THEN conjunct2, THEN conjunct2, THEN conjunct1, THEN spec,
      THEN spec, THEN spec, THEN spec, THEN mp, OF h]
  have n: "parseInt ''1'' = 1" "parseInt ''234'' = 234"
    by (simp_all add: parseInt_def digit_val_def)
  from plain have 2: "parse_frame ''    at file.js:1:234''
       = Some \<lparr>functionName = ''<anonymous>'', filePath = ''file.js'', lineNum = 1, column = 234\<rparr>"
    by (simp add: n)
  note anon = frame_pattern_scenarios [THEN conjunct2, THEN conjunct2, THEN conjunct2, THEN conjunct1,
      THEN spec, THEN spec, THEN mp, THEN mp, OF 1 2]
  show ?thesis
    by (intro conjI 1 2 anon)
qed





section \<open>The translator\<close>

lemma join_with_Cons: "ls \<noteq> [] \<Longrightarrow> join_with sep (l # ls) = l @ sep @ join_with sep ls"
  by (cases ls) auto

lemma split_not_Nil: "split c s \<noteq> []"
  by (induction s) (auto split: list.splits)

lemma join_split: "join_with [c] (split c s) = s"
proof (induction s)
  case Nil
  show ?case by simp
next
  case (Cons a s)
  show ?case
  proof (cases "a = c")
    case True
    with Cons show ?thesis by (simp add: join_with_Cons split_not_Nil)
  next
    case False
    obtain l ls where sp: "split c s = l # ls" using split_not_Nil [of c s] by (cases "split c s") auto
    show ?thesis
    proof (cases ls)
      case Nil
      with Cons sp False show ?thesis by simp
    next
      case (Cons x xs)
      with Cons.IH sp False show ?thesis by simp
    qed
  qed
qed

lemma original_translate_with_map:
  "translate_with_map E fs p l f = Inr e \<Longrightarrow> original e = l"
  by (auto simp: translate_with_map_def split: sum.splits option.splits if_splits)

lemma original_translate_line: "original (translate_line E fs d l) = l"
  by (auto simp: translate_line_def Let_def original_translate_with_map
      split: option.splits sum.splits)

lemma translate_line_no_match:
  "exec frame_pattern (trim l) = None \<Longrightarrow>
   translate_line E fs d l = \<lparr>original = l, translated = None, error = None, obfuscated = None\<rparr>"
  by (simp add: translate_line_def parse_frame_def)

text \<open>
  Claim C5. For every input text the translator returns exactly one entry per
  line of the input, in the order of the lines, and the \<open>original\<close> field of each
  entry is its line verbatim: the fields joined by line feeds are the input
  again. A line that does not match the frame pattern yields an entry with
  \<open>translated = null\<close> and no error.
\<close>

theorem one_entry_per_line:
  "length (translateStackTrace E fs s d) = length (split CHR 0x0A s)
   \<and> map original (translateStackTrace E fs s d) = split CHR 0x0A s
   \<and> join_with [CHR 0x0A] (map original (translateStackTrace E fs s d)) = s
   \<and> (\<forall>i < length (split CHR 0x0A s).
        exec frame_pattern (trim (split CHR 0x0A s ! i)) = None \<longrightarrow>
        translateStackTrace E fs s d ! i =
          \<lparr>original = split CHR 0x0A s ! i, translated = None, error = None, obfuscated = None\<rparr>)"
proof -
  have m: "map original (translateStackTrace E fs s d) = split CHR 0x0A s"
    by (simp add: translateStackTrace_def original_translate_line comp_def)
  have "join_with [CHR 0x0A] (map original (translateStackTrace E fs s d)) = s"
    unfolding m by (rule join_split)
  moreover have "translateStackTrace E fs s d ! i =
      \<lparr>original = split CHR 0x0A s ! i, translated = None, error = None, obfuscated = None\<rparr>"
    if "i < length (split CHR 0x0A s)" "exec frame_pattern (trim (split CHR 0x0A s ! i)) = None" for i
    using that by (simp add: translateStackTrace_def translate_line_no_match)
  ultimately show ?thesis using m by (simp add: translateStackTrace_def)
qed

theorem one_entry_per_line_witness:
  "(0::nat) < length (split CHR 0x0A (''Error: Test error'' @ [CHR 0x0A] @ ''    at file.js:1:234''))
   \<and> exec frame_pattern
        (trim (split CHR 0x0A (''Error: Test error'' @ [CHR 0x0A] @ ''    at file.js:1:234'') ! 0)) = None
   \<and> translateStackTrace (small_env (\<lambda>_. None) (\<lambda>_. None)) (\<lambda>_. None)
        (''Error: Test error'' @ [CHR 0x0A] @ ''    at file.js:1:234'') ''sourcemaps'' ! 0
      = \<lparr>original = ''Error: Test error'', translated = None, error = None, obfuscated = None\<rparr>
   \<and> map original (translateStackTrace (small_env (\<lambda>_. None) (\<lambda>_. None)) (\<lambda>_. None)
        (''Error: Test error'' @ [CHR 0x0A] @ ''    at file.js:1:234'') ''sourcemaps'')
      = [''Error: Test error'', ''    at file.js:1:234'']"
proof -
  let ?s = "''Error: Test error'' @ [CHR 0x0A] @ ''    at file.js:1:234''"
  have sp: "split CHR 0x0A ?s = [''Error: Test error'', ''    at file.js:1:234'']"
    by code_simp
  have ex: "exec frame_pattern (trim ''Error: Test error'') = None"
    by code_simp
  from one_entry_per_line [of "small_env (\<lambda>_. None) (\<lambda>_. None)" "\<lambda>_. None" ?s "''sourcemaps''"]
  show ?thesis unfolding sp using ex by simp
qed

lemma translate_line_translated:
  assumes "translated (translate_line E fs d l) = Some t"
  shows "\<exists>f content c p src.
      parse_frame l = Some f
      \<and> existsSync E fs (source_map_path E d (filePath f))
      \<and> readFileSync E fs (source_map_path E d (filePath f)) = Inr content
      \<and> consumer_of_string E content = Inr c
      \<and> snd (resolve_frame c (lineNum f) (column f)) = Inr p
      \<and> p_source p = Some src \<and> src \<noteq> []
      \<and> t = \<lparr>t_file = src, t_line = p_line p, t_column = p_column p,
              t_name = displayName (p_name p) (functionName f),
              sourceCode = source_code_line c src (p_line p)\<rparr>"
  using assms
  by (auto simp: translate_line_def translate_with_map_def Let_def
      split: option.splits sum.splits if_splits)

text \<open>
  Claim C7, amended. When a frame is resolved, the reported name is the name the
  mapping resolved, provided that name is not empty and does not start with
  \<open>_0x\<close>; otherwise (a name that starts with \<open>_0x\<close>, an empty name or none) it
  is the function name parsed from the frame.
\<close>

theorem reported_name:
  assumes "translated (translate_line E fs d l) = Some t"
  shows "\<exists>f content c p.
      parse_frame l = Some f
      \<and> readFileSync E fs (source_map_path E d (filePath f)) = Inr content
      \<and> consumer_of_string E content = Inr c
      \<and> snd (resolve_frame c (lineNum f) (column f)) = Inr p
      \<and> truthy (p_source p)
      \<and> t_name t =
          (case p_name p of
             None \<Rightarrow> functionName f
           | Some n \<Rightarrow> if n \<noteq> [] \<and> \<not> startsWith n ''_0x'' then n else functionName f)"
proof -
  from translate_line_translated [OF assms] obtain f content c p src where
    "parse_frame l = Some f"
    "readFileSync E fs (source_map_path E d (filePath f)) = Inr content"
    "consumer_of_string E content = Inr c"
    "snd (resolve_frame c (lineNum f) (column f)) = Inr p"
    "p_source p = Some src" "src \<noteq> []"
    "t = \<lparr>t_file = src, t_line = p_line p, t_column = p_column p,
              t_name = displayName (p_name p) (functionName f),
              sourceCode = source_code_line c src (p_line p)\<rparr>"
    by blast
  then show ?thesis
    by (intro exI [of _ f] exI [of _ content] exI [of _ c] exI [of _ p])
      (simp add: truthy_def displayName_def)
qed

theorem reported_name_witness:
  "translated (translate_line scenario_env scenario_fs ''sourcemaps''
       ''    at _0x3a4f2b (user.js:98:19)'')
     = Some \<lparr>t_file = ''user.ts'', t_line = Some 2, t_column = Some 3,
              t_name = ''userController'', sourceCode = Some ''throw new Error();''\<rparr>
   \<and> (\<exists>f content c p.
        parse_frame ''    at _0x3a4f2b (user.js:98:19)'' = Some f
        \<and> readFileSync scenario_env scenario_fs
              (source_map_path scenario_env ''sourcemaps'' (filePath f)) = Inr content
        \<and> consumer_of_string scenario_env content = Inr c
        \<and> snd (resolve_frame c (lineNum f) (column f)) = Inr p
        \<and> truthy (p_source p)
        \<and> ''userController'' =
            (case p_name p of
               None \<Rightarrow> functionName f
             | Some n \<Rightarrow> if n \<noteq> [] \<and> \<not> startsWith n ''_0x'' then n else functionName f))"
proof -
  have h: "translated (translate_line scenario_env scenario_fs ''sourcemaps''
       ''    at _0x3a4f2b (user.js:98:19)'')
     = Some \<lparr>t_file = ''user.ts'', t_line = Some 2, t_column = Some 3,
              t_name = ''userController'', sourceCode = Some ''throw new Error();''\<rparr>"
    by code_simp
  from reported_name [OF h] h show ?thesis by simp
qed

text \<open>
  Claim C7 as stated fails for an empty resolved name: the empty name does not
  start with \<open>_0x\<close>, and the name reported is the function name of the frame.
\<close>

theorem empty_name_not_reported:
  "originalPositionFor (spec_consumer [seg_unnamed] [''user.ts''] None) (Some 98) (Some 19)
     = Inr \<lparr>p_source = Some ''user.ts'', p_line = Some 2, p_column = Some 3, p_name = Some ''''\<rparr>
   \<and> startsWith '''' ''_0x'' = False
   \<and> translate_line empty_name_env empty_name_fs ''sourcemaps''
        ''    at _0x3a4f2b (empty.js:98:19)''
     = \<lparr>original = ''    at _0x3a4f2b (empty.js:98:19)'',
        translated = Some \<lparr>t_file = ''user.ts'', t_line = Some 2, t_column = Some 3,
                            t_name = ''_0x3a4f2b'', sourceCode = None\<rparr>,
        error = None, obfuscated = Some (''empty.js'', 98, 19)\<rparr>"
proof (intro conjI)
  show "originalPositionFor (spec_consumer [seg_unnamed] [''user.ts''] None) (Some 98) (Some 19)
     = Inr \<lparr>p_source = Some ''user.ts'', p_line = Some 2, p_column = Some 3, p_name = Some ''''\<rparr>"
    by (simp add: spec_consumer_def spec_resolve_def seg_unnamed_def covers_def position_of_def)
  show "startsWith '''' ''_0x'' = False"
    by simp
  show "translate_line empty_name_env empty_name_fs ''sourcemaps''
        ''    at _0x3a4f2b (empty.js:98:19)''
     = \<lparr>original = ''    at _0x3a4f2b (empty.js:98:19)'',
        translated = Some \<lparr>t_file = ''user.ts'', t_line = Some 2, t_column = Some 3,
                            t_name = ''_0x3a4f2b'', sourceCode = None\<rparr>,
        error = None, obfuscated = Some (''empty.js'', 98, 19)\<rparr>"
    by code_simp
qed


lemma resolve_segments_covers:
  "resolve_segments segs l col = Some m \<Longrightarrow> m \<in> set segs \<and> covers m l col"
  by (induction segs arbitrary: m) (auto split: option.splits if_splits)

lemma resolve_segments_no_line:
  "\<forall>m \<in> set segs. generatedLine m \<noteq> l \<Longrightarrow> resolve_segments segs l col = None"
proof (cases "resolve_segments segs l col")
  case None
  then show ?thesis .
next
  case (Some m)
  assume "\<forall>m \<in> set segs. generatedLine m \<noteq> l"
  with resolve_segments_covers [OF Some] show ?thesis by (auto simp: covers_def)
qed

text \<open>
  Claim C3, amended. When the query at the exact column returns a result without
  a source and the column is greater than 0, the translator makes exactly one
  more query, at column 0 of the same line, and takes its result; otherwise the
  exact query is the only one. Every query is on the line of the frame. With the
  resolver of the specification, a frame on a line without segments is a miss.
  A frame whose resolution ends without a source is reported as unresolved.
\<close>

theorem column_zero_fallback:
  "(originalPositionFor c (Some l) (Some col) = Inr p \<longrightarrow>
      fst (resolve_frame c l col)
        = (if \<not> truthy (p_source p) \<and> col > 0 then [(l, col), (l, 0)] else [(l, col)])
      \<and> snd (resolve_frame c l col)
        = (if \<not> truthy (p_source p) \<and> col > 0 then originalPositionFor c (Some l) (Some 0)
           else Inr p))
   \<and> (\<forall>q \<in> set (fst (resolve_frame c l col)). fst q = l)
   \<and> ((\<forall>m \<in> set segs. generatedLine m \<noteq> l) \<longrightarrow>
        fst (resolve_frame (spec_consumer segs srcs contents) l col) 
          = (if col > 0 then [(l, col), (l, 0)] else [(l, col)])
        \<and> snd (resolve_frame (spec_consumer segs srcs contents) l col) = Inr not_found)
   \<and> (readFileSync E fs path = Inr content \<and> consumer_of_string E content = Inr c
        \<and> snd (resolve_frame c (lineNum f) (column f)) = Inr q \<and> \<not> truthy (p_source q) \<longrightarrow>
        translate_with_map E fs path line f =
          Inr \<lparr>original = line, translated = None,
               error = Some ''No original position found in source map'', obfuscated = None\<rparr>)"
proof (intro conjI impI ballI)
  assume "originalPositionFor c (Some l) (Some col) = Inr p"
  then show "fst (resolve_frame c l col)
        = (if \<not> truthy (p_source p) \<and> col > 0 then [(l, col), (l, 0)] else [(l, col)])"
    and "snd (resolve_frame c l col)
        = (if \<not> truthy (p_source p) \<and> col > 0 then originalPositionFor c (Some l) (Some 0)
           else Inr p)"
    by (simp_all add: resolve_frame_def)
next
  fix q assume "q \<in> set (fst (resolve_frame c l col))"
  then show "fst q = l"
    by (auto simp: resolve_frame_def split: sum.splits if_splits)
next
  assume "\<forall>m \<in> set segs. generatedLine m \<noteq> l"
  then have "\<And>k. spec_resolve segs (Some l) (Some k) = not_found"
    by (simp add: spec_resolve_def resolve_segments_no_line)
  then show "fst (resolve_frame (spec_consumer segs srcs contents) l col) 
          = (if col > 0 then [(l, col), (l, 0)] else [(l, col)])"
    and "snd (resolve_frame (spec_consumer segs srcs contents) l col) = Inr not_found"
    by (simp_all add: resolve_frame_def spec_consumer_def not_found_def truthy_def)
next
  assume "readFileSync E fs path = Inr content \<and> consumer_of_string E content = Inr c
        \<and> snd (resolve_frame c (lineNum f) (column f)) = Inr q \<and> \<not> truthy (p_source q)"
  then show "translate_with_map E fs path line f =
          Inr \<lparr>original = line, translated = None,
               error = Some ''No original position found in source map'', obfuscated = None\<rparr>"
    by (auto simp: translate_with_map_def truthy_def split: option.splits)
qed

theorem column_zero_fallback_witness:
  "originalPositionFor column_zero_only (Some 7) (Some 37)
     = Inr \<lparr>p_source = None, p_line = None, p_column = None, p_name = None\<rparr>
   \<and> resolve_frame column_zero_only 7 37
     = ([(7, 37), (7, 0)],
        Inr \<lparr>p_source = Some ''user.ts'', p_line = Some 2, p_column = Some 3,
              p_name = Some ''userController''\<rparr>)
   \<and> resolve_frame (spec_consumer [seg_C] [''user.ts''] None) 99 37
     = ([(99, 37), (99, 0)], Inr not_found)"
proof -
  have 1: "originalPositionFor column_zero_only (Some 7) (Some 37)
     = Inr \<lparr>p_source = None, p_line = None, p_column = None, p_name = None\<rparr>"
    by (simp add: column_zero_only_def)
  have 2: "\<forall>m \<in> set [seg_C]. generatedLine m \<noteq> 99"
    by (simp add: seg_C_def)
  have 3: "originalPositionFor column_zero_only (Some 7) (Some 0)
     = Inr \<lparr>p_source = Some ''user.ts'', p_line = Some 2, p_column = Some 3,
              p_name = Some ''userController''\<rparr>"
    by (simp add: column_zero_only_def)
  from column_zero_fallback [of column_zero_only 7 37
      "\<lparr>p_source = None, p_line = None, p_column = None, p_name = None\<rparr>",
      THEN conjunct1, rule_format, OF 1] 3
  have a: "resolve_frame column_zero_only 7 37
     = ([(7, 37), (7, 0)],
        Inr \<lparr>p_source = Some ''user.ts'', p_line = Some 2, p_column = Some 3,
              p_name = Some ''userController''\<rparr>)"
    by (simp add: prod_eq_iff truthy_def)
  from column_zero_fallback [of _ 99 37 _ "[seg_C]" "[''user.ts'']" None,
      THEN conjunct2, THEN conjunct2, THEN conjunct1, THEN mp, OF 2]
  have b: "resolve_frame (spec_consumer [seg_C] [''user.ts''] None) 99 37
     = ([(99, 37), (99, 0)], Inr not_found)"
    by (simp add: prod_eq_iff)
  from 1 a b show ?thesis by simp
qed

text \<open>
  Claim C3 as stated fails for a frame at column 0: the exact query returns no
  source, and it is the only query made.
\<close>

theorem no_retry_at_column_zero:
  "originalPositionFor column_zero_only (Some 5) (Some 0)
     = Inr \<lparr>p_source = None, p_line = None, p_column = None, p_name = None\<rparr>
   \<and> fst (resolve_frame column_zero_only 5 0) = [(5, 0)]"
  by (simp add: resolve_frame_def column_zero_only_def truthy_def)

section \<open>Failures of single frames and documents\<close>

lemma split_append: "split c (a @ c # b) = split c a @ split c b"
  by (induction a) (auto split: list.splits simp: split_not_Nil)

lemma split_line: "c \<notin> set l \<Longrightarrow> split c l = [l]"
  by (induction l) (auto split: list.splits)

lemma translateStackTrace_lines:
  "CHR 0x0A \<notin> set l \<Longrightarrow>
   translateStackTrace E fs (before @ [CHR 0x0A] @ l @ [CHR 0x0A] @ rest) d
     = translateStackTrace E fs before d @ [translate_line E fs d l] @ translateStackTrace E fs rest d"
  by (simp add: translateStackTrace_def split_append split_line)

lemma translate_line_failure:
  assumes "parse_frame l = Some f"
    and "frame_failure E fs (source_map_path E d (filePath f)) f = Some x"
  shows "translate_line E fs d l =
     \<lparr>original = l, translated = None,
      error = Some (reason (source_map_path E d (filePath f)) x), obfuscated = None\<rparr>"
  using assms
  by (auto simp: translate_line_def translate_with_map_def frame_failure_def reason_def Let_def truthy_def
      split: sum.splits option.splits if_splits)

lemma load_maps_throws:
  "readFileSync E fs ts = Inl msg \<Longrightarrow> \<exists>msg'. load_maps E fs ts obf = Inl msg'"
  "readFileSync E fs obf = Inl msg \<Longrightarrow> \<exists>msg'. load_maps E fs ts obf = Inl msg'"
  "readFileSync E fs ts = Inr a \<Longrightarrow> JSON_parse E a = Inl msg \<Longrightarrow> \<exists>msg'. load_maps E fs ts obf = Inl msg'"
  "readFileSync E fs obf = Inr b \<Longrightarrow> JSON_parse E b = Inl msg \<Longrightarrow> \<exists>msg'. load_maps E fs ts obf = Inl msg'"
  "readFileSync E fs ts = Inr a \<Longrightarrow> JSON_parse E a = Inr ra \<Longrightarrow> consumer_of_object E ra = Inl msg
     \<Longrightarrow> \<exists>msg'. load_maps E fs ts obf = Inl msg'"
  "readFileSync E fs obf = Inr b \<Longrightarrow> JSON_parse E b = Inr rb \<Longrightarrow> consumer_of_object E rb = Inl msg
     \<Longrightarrow> \<exists>msg'. load_maps E fs ts obf = Inl msg'"
  by (auto simp: load_maps_def split: sum.splits)

lemma chainSourceMaps_None:
  "load_maps E fs ts obf = Inl msg \<Longrightarrow> chainSourceMaps E toString fs ts obf = None"
  by (simp add: chainSourceMaps_def chain_generator_def)

lemma main_loop_failed:
  assumes "\<not> existsSync E fs (join E [DIST_DIR, relative E TS_BACKUP_DIR p])
     \<or> chainSourceMaps E toString fs p (join E [DIST_DIR, relative E TS_BACKUP_DIR p]) = None"
  shows "main_loop E toString (fs, chained, failed) (p # rest)
     = main_loop E toString (fs, chained, Suc failed) rest"
  using assms by (auto simp: Let_def)

lemma main_loop_tally:
  assumes w: "\<And>fs p c. \<exists>fs'. writeFileSync E fs p c = Inr fs'"
  shows "\<exists>fs' chained' failed'.
      main_loop E toString (fs, chained, failed) files = Inr (fs', chained', failed')
      \<and> chained' + failed' = chained + failed + length files"
proof (induction files arbitrary: fs chained failed)
  case Nil
  show ?case by simp
next
  case (Cons p files)
  let ?obf = "join E [DIST_DIR, relative E TS_BACKUP_DIR p]"
  from Cons [of fs chained "Suc failed"] obtain fs1 c1 f1 where
    fail: "main_loop E toString (fs, chained, Suc failed) files = Inr (fs1, c1, f1)"
      "c1 + f1 = chained + failed + length (p # files)"
    by auto
  show ?case
  proof (cases "existsSync E fs ?obf")
    case False
    with fail show ?thesis by (simp add: Let_def)
  next
    case True
    show ?thesis
    proof (cases "chainSourceMaps E toString fs p ?obf")
      case None
      with True fail show ?thesis by (simp add: Let_def)
    next
      case (Some chainedMap)
      show ?thesis
      proof (cases "chainedMap = []")
        case True
        with \<open>existsSync E fs ?obf\<close> Some fail show ?thesis by (simp add: Let_def)
      next
        case False
        from w obtain fs' where wr: "writeFileSync E fs ?obf chainedMap = Inr fs'" by blast
        from Cons [of fs' "Suc chained" failed] obtain fs2 c2 f2 where
          "main_loop E toString (fs', Suc chained, failed) files = Inr (fs2, c2, f2)"
          "c2 + f2 = chained + failed + length (p # files)"
          by auto
        with \<open>existsSync E fs ?obf\<close> Some False wr show ?thesis by (simp add: Let_def)
      qed
    qed
  qed
qed

text \<open>
  Claim C4. A frame whose mapping document is missing, cannot be read or decoded,
  or does not resolve the position gets the entry with \<open>translated = null\<close> and
  the reason of its failure, and the entries of the lines before and after it are
  what they are without it. A composition whose documents cannot be read, parsed
  or decoded returns \<open>null\<close>. In the loop over the documents, one whose second
  document is missing or whose composition is \<open>null\<close> is counted as failed and the
  loop goes on with the rest; when writing the results succeeds, the loop ends
  with every document counted as chained or as failed.
\<close>

theorem failures_stay_local:
  "(parse_frame l = Some f
      \<and> frame_failure E fs (source_map_path E d (filePath f)) f = Some x
      \<and> CHR 0x0A \<notin> set l \<longrightarrow>
      translateStackTrace E fs (before @ [CHR 0x0A] @ l @ [CHR 0x0A] @ rest) d
        = translateStackTrace E fs before d
          @ [\<lparr>original = l, translated = None,
               error = Some (reason (source_map_path E d (filePath f)) x),
               obfuscated = None\<rparr>]
          @ translateStackTrace E fs rest d)
   \<and> (load_maps E fs ts obf = Inl msg \<longrightarrow> chainSourceMaps E toString fs ts obf = None)
   \<and> (readFileSync E fs ts = Inl msg \<longrightarrow> chainSourceMaps E toString fs ts obf = None)
   \<and> (readFileSync E fs obf = Inl msg \<longrightarrow> chainSourceMaps E toString fs ts obf = None)
   \<and> (readFileSync E fs ts = Inr a \<and> JSON_parse E a = Inl msg \<longrightarrow>
        chainSourceMaps E toString fs ts obf = None)
   \<and> (readFileSync E fs obf = Inr b \<and> JSON_parse E b = Inl msg \<longrightarrow>
        chainSourceMaps E toString fs ts obf = None)
   \<and> (readFileSync E fs ts = Inr a \<and> JSON_parse E a = Inr ra \<and> consumer_of_object E ra = Inl msg \<longrightarrow>
        chainSourceMaps E toString fs ts obf = None)
   \<and> (readFileSync E fs obf = Inr b \<and> JSON_parse E b = Inr rb \<and> consumer_of_object E rb = Inl msg \<longrightarrow>
        chainSourceMaps E toString fs ts obf = None)
   \<and> (\<not> existsSync E fs (join E [DIST_DIR, relative E TS_BACKUP_DIR p])
        \<or> chainSourceMaps E toString fs p (join E [DIST_DIR, relative E TS_BACKUP_DIR p]) = None \<longrightarrow>
        main_loop E toString (fs, chained, failed) (p # files)
          = main_loop E toString (fs, chained, Suc failed) files)
   \<and> ((\<forall>fs p c. \<exists>fs'. writeFileSync E fs p c = Inr fs') \<longrightarrow>
        (\<exists>fs' chained' failed'.
           main_loop E toString (fs, 0, 0) files = Inr (fs', chained', failed')
           \<and> chained' + failed' = length files))"
proof (intro conjI impI)
  assume "parse_frame l = Some f
      \<and> frame_failure E fs (source_map_path E d (filePath f)) f = Some x
      \<and> CHR 0x0A \<notin> set l"
  then show "translateStackTrace E fs (before @ [CHR 0x0A] @ l @ [CHR 0x0A] @ rest) d
        = translateStackTrace E fs before d
          @ [\<lparr>original = l, translated = None,
               error = Some (reason (source_map_path E d (filePath f)) x),
               obfuscated = None\<rparr>]
          @ translateStackTrace E fs rest d"
    using translateStackTrace_lines [of l E fs before rest d]
      translate_line_failure [of l f E fs d x]
    by simp
next
  assume "\<forall>fs p c. \<exists>fs'. writeFileSync E fs p c = Inr fs'"
  with main_loop_tally [of E toString fs 0 0 files]
  show "\<exists>fs' chained' failed'.
           main_loop E toString (fs, 0, 0) files = Inr (fs', chained', failed')
           \<and> chained' + failed' = length files"
    by simp
next
  assume "\<not> existsSync E fs (join E [DIST_DIR, relative E TS_BACKUP_DIR p])
        \<or> chainSourceMaps E toString fs p (join E [DIST_DIR, relative E TS_BACKUP_DIR p]) = None"
  then show "main_loop E toString (fs, chained, failed) (p # files)
          = main_loop E toString (fs, chained, Suc failed) files"
    by (rule main_loop_failed)
qed (auto simp: chainSourceMaps_def chain_generator_def load_maps_def split: sum.splits)

theorem failures_stay_local_witness:
  "parse_frame trace_gone
     = Some \<lparr>functionName = ''_0x1'', filePath = ''gone.js'', lineNum = 1, column = 1\<rparr>
   \<and> frame_failure scenario_env scenario_fs ''sourcemaps/gone.js.map''
        \<lparr>functionName = ''_0x1'', filePath = ''gone.js'', lineNum = 1, column = 1\<rparr>
     = Some MissingDocument
   \<and> translateStackTrace scenario_env scenario_fs
        (trace_before @ [CHR 0x0A] @ trace_gone @ [CHR 0x0A] @ trace_rest) ''sourcemaps''
     = [\<lparr>original = ''Error: Test error'', translated = None, error = None, obfuscated = None\<rparr>,
        \<lparr>original = ''    at _0x1 (gone.js:1:1)'', translated = None,
         error = Some ''Source map not found: sourcemaps/gone.js.map'', obfuscated = None\<rparr>,
        \<lparr>original = ''    at _0x2 (broken.js:3:4)'', translated = None,
         error = Some ''Error reading source map: Unexpected token'', obfuscated = None\<rparr>,
        \<lparr>original = ''    at _0x3a4f2b (user.js:98:19)'',
         translated = Some \<lparr>t_file = ''user.ts'', t_line = Some 2, t_column = Some 3,
                             t_name = ''userController'', sourceCode = Some ''throw new Error();''\<rparr>,
         error = None, obfuscated = Some (''user.js'', 98, 19)\<rparr>]
   \<and> existsSync scenario_env scenario_fs ''./dist/gone.js.map'' = False
   \<and> main_loop scenario_env scenario_toString (scenario_fs, 0, 0)
        [''./dist-sourcemaps-backup/gone.js.map'', ''./dist-sourcemaps-backup/broken.js.map'',
         ''./dist-sourcemaps-backup/user.js.map'']
     = main_loop scenario_env scenario_toString (scenario_fs, 0, Suc 0)
        [''./dist-sourcemaps-backup/broken.js.map'', ''./dist-sourcemaps-backup/user.js.map'']
   \<and> (case main_loop scenario_env scenario_toString (scenario_fs, 0, 0)
          [''./dist-sourcemaps-backup/gone.js.map'', ''./dist-sourcemaps-backup/broken.js.map'',
           ''./dist-sourcemaps-backup/user.js.map''] of
         Inl e \<Rightarrow> None
       | Inr (fs', c, f) \<Rightarrow> Some (c, f, fs' ''./dist/user.js.map''))
     = Some (1, 2, Some ''{C}'')"
proof -
  let ?f = "\<lparr>functionName = ''_0x1'', filePath = ''gone.js'', lineNum = 1, column = 1\<rparr>"
  have p: "parse_frame trace_gone = Some ?f"
    by code_simp
  have path: "source_map_path scenario_env ''sourcemaps'' (filePath ?f) = ''sourcemaps/gone.js.map''"
    by code_simp
  have ff: "frame_failure scenario_env scenario_fs ''sourcemaps/gone.js.map'' ?f = Some MissingDocument"
    by code_simp
  have nl: "CHR 0x0A \<notin> set trace_gone"
    by code_simp
  have b: "translateStackTrace scenario_env scenario_fs trace_before ''sourcemaps''
     = [\<lparr>original = ''Error: Test error'', translated = None, error = None, obfuscated = None\<rparr>]"
    by code_simp
  have r: "translateStackTrace scenario_env scenario_fs trace_rest ''sourcemaps''
     = [\<lparr>original = ''    at _0x2 (broken.js:3:4)'', translated = None,
         error = Some ''Error reading source map: Unexpected token'', obfuscated = None\<rparr>,
        \<lparr>original = ''    at _0x3a4f2b (user.js:98:19)'',
         translated = Some \<lparr>t_file = ''user.ts'', t_line = Some 2, t_column = Some 3,
                             t_name = ''userController'', sourceCode = Some ''throw new Error();''\<rparr>,
         error = None, obfuscated = Some (''user.js'', 98, 19)\<rparr>]"
    by code_simp
  have g: "trace_gone = ''    at _0x1 (gone.js:1:1)''"
    by (simp add: trace_gone_def)
  note inst = failures_stay_local [of trace_gone ?f scenario_env scenario_fs "''sourcemaps''"
      MissingDocument trace_before trace_rest _ _ _ scenario_toString _ _ _ _
      "''./dist-sourcemaps-backup/gone.js.map''" 0 0
      "[''./dist-sourcemaps-backup/broken.js.map'', ''./dist-sourcemaps-backup/user.js.map'']"]
  from inst [THEN conjunct1, THEN mp] p ff nl path
  have 1: "translateStackTrace scenario_env scenario_fs
        (trace_before @ [CHR 0x0A] @ trace_gone @ [CHR 0x0A] @ trace_rest) ''sourcemaps''
      = translateStackTrace scenario_env scenario_fs trace_before ''sourcemaps''
        @ [\<lparr>original = trace_gone, translated = None,
             error = Some (reason ''sourcemaps/gone.js.map'' MissingDocument),
             obfuscated = None\<rparr>]
        @ translateStackTrace scenario_env scenario_fs trace_rest ''sourcemaps''"
    by simp
  have e: "existsSync scenario_env scenario_fs ''./dist/gone.js.map'' = False"
    by code_simp
  have j: "join scenario_env [DIST_DIR, relative scenario_env TS_BACKUP_DIR
      ''./dist-sourcemaps-backup/gone.js.map''] = ''./dist/gone.js.map''"
    by code_simp
  from inst [THEN conjunct2, THEN conjunct2, THEN conjunct2, THEN conjunct2, THEN conjunct2,
      THEN conjunct2, THEN conjunct2, THEN conjunct2, THEN conjunct1, THEN mp] e j
  have 2: "main_loop scenario_env scenario_toString (scenario_fs, 0, 0)
        [''./dist-sourcemaps-backup/gone.js.map'', ''./dist-sourcemaps-backup/broken.js.map'',
         ''./dist-sourcemaps-backup/user.js.map'']
     = main_loop scenario_env scenario_toString (scenario_fs, 0, Suc 0)
        [''./dist-sourcemaps-backup/broken.js.map'', ''./dist-sourcemaps-backup/user.js.map'']"
    by simp
  have 3: "(case main_loop scenario_env scenario_toString (scenario_fs, 0, 0)
          [''./dist-sourcemaps-backup/gone.js.map'', ''./dist-sourcemaps-backup/broken.js.map'',
           ''./dist-sourcemaps-backup/user.js.map''] of
         Inl e \<Rightarrow> None
       | Inr (fs', c, f) \<Rightarrow> Some (c, f, fs' ''./dist/user.js.map''))
     = Some (1, 2, Some ''{C}'')"
    by code_simp
  have rs: "reason ''sourcemaps/gone.js.map'' MissingDocument
      = ''Source map not found: sourcemaps/gone.js.map''"
    by (simp add: reason_def)
  have t: "translateStackTrace scenario_env scenario_fs
        (trace_before @ [CHR 0x0A] @ trace_gone @ [CHR 0x0A] @ trace_rest) ''sourcemaps''
     = [\<lparr>original = ''Error: Test error'', translated = None, error = None, obfuscated = None\<rparr>,
        \<lparr>original = ''    at _0x1 (gone.js:1:1)'', translated = None,
         error = Some ''Source map not found: sourcemaps/gone.js.map'', obfuscated = None\<rparr>,
        \<lparr>original = ''    at _0x2 (broken.js:3:4)'', translated = None,
         error = Some ''Error reading source map: Unexpected token'', obfuscated = None\<rparr>,
        \<lparr>original = ''    at _0x3a4f2b (user.js:98:19)'',
         translated = Some \<lparr>t_file = ''user.ts'', t_line = Some 2, t_column = Some 3,
                             t_name = ''userController'', sourceCode = Some ''throw new Error();''\<rparr>,
         error = None, obfuscated = Some (''user.js'', 98, 19)\<rparr>]"
    by (subst 1) (simp add: b r rs g)
  show ?thesis
    by (intro conjI p ff t e 2 3)
qed

section \<open>The composition\<close>

lemma chain_mappings_append:
  "chain_mappings A (xs @ ys) =
     (case chain_mappings A xs of
        Inl e \<Rightarrow> Inl e
      | Inr a \<Rightarrow> (case chain_mappings A ys of Inl e \<Rightarrow> Inl e | Inr b \<Rightarrow> Inr (a @ b)))"
  by (induction xs) (auto split: sum.splits)


lemma chain_mappings_origin:
  "chain_mappings A ms = Inr out \<Longrightarrow> n \<in> set out \<Longrightarrow>
   \<exists>m \<in> set ms. \<exists>added. chain_step A m = Inr added \<and> n \<in> set added"
  by (induction ms arbitrary: out) (auto split: sum.splits)


lemma chain_step_dropped: "dropped A m \<Longrightarrow> chain_step A m = Inr []"
  by (auto simp: dropped_def chain_step_def truthy_def split: if_splits sum.splits option.splits)

lemma chain_step_position:
  "chain_step A m = Inr added \<Longrightarrow> n \<in> set added \<Longrightarrow>
   gen_line n = generatedLine m \<and> gen_column n = generatedColumn m \<and> \<not> dropped A m"
  by (auto simp: dropped_def chain_step_def truthy_def split: if_splits sum.splits option.splits)

lemma chain_generator_mappings:
  "load_maps E fs ts obf = Inr (tsMap, obfMap, A, B) \<Longrightarrow>
   chain_generator E fs ts obf = Inr g \<Longrightarrow>
   chain_mappings A (eachMapping B) = Inr (g_mappings g)"
  by (auto simp: chain_generator_def Let_def split: sum.splits)

lemma scenario_load:
  "load_maps scenario_env scenario_fs ''./dist-sourcemaps-backup/user.js.map'' ''./dist/user.js.map''
     = Inr (raw_A, raw_B, scenario_A, scenario_B)"
  by (simp add: load_maps_def scenario_env_def small_env_def scenario_fs_def scenario_parse_def
      scenario_decode_def raw_A_def raw_B_def scenario_A_def scenario_B_def)





text \<open>
  Claim C2. A segment of B without an original position, or whose original
  position the resolver of A resolves to no source, adds nothing and raises no
  error: the composition is what it is without that segment. When every segment
  of B at a generated position is of that kind, the composed document has no
  segment at that position.
\<close>

theorem dropped_segment:
  "(dropped A m \<longrightarrow>
      chain_step A m = Inr []
      \<and> chain_mappings A (xs @ m # ys) = chain_mappings A (xs @ ys))
   \<and> (chain_mappings A ms = Inr out
        \<and> (\<forall>m \<in> set ms. generatedLine m = l \<and> generatedColumn m = col \<longrightarrow> dropped A m) \<longrightarrow>
        (\<forall>n \<in> set out. (gen_line n, gen_column n) \<noteq> (l, col)))
   \<and> (load_maps E fs ts obf = Inr (tsMap, obfMap, A, B)
        \<and> chain_generator E fs ts obf = Inr g
        \<and> (\<forall>m \<in> set (eachMapping B).
              generatedLine m = l \<and> generatedColumn m = col \<longrightarrow> dropped A m) \<longrightarrow>
        (\<forall>n \<in> set (g_mappings g). (gen_line n, gen_column n) \<noteq> (l, col)))"
proof -
  have step: "chain_step A m = Inr []" if "dropped A m"
    using that by (rule chain_step_dropped)
  have skip: "chain_mappings A (xs @ m # ys) = chain_mappings A (xs @ ys)" if "dropped A m"
    using step [OF that] by (simp add: chain_mappings_append split: sum.splits)
  have none: "\<forall>n \<in> set out. (gen_line n, gen_column n) \<noteq> (l, col)"
    if c: "chain_mappings A ms = Inr out"
      and d: "\<forall>m \<in> set ms. generatedLine m = l \<and> generatedColumn m = col \<longrightarrow> dropped A m"
    for ms out
  proof
    fix n assume "n \<in> set out"
    from chain_mappings_origin [OF c this] obtain m' added where
      m': "m' \<in> set ms" "chain_step A m' = Inr added" "n \<in> set added"
      by blast
    from chain_step_position [OF m'(2,3)] d m'(1)
    show "(gen_line n, gen_column n) \<noteq> (l, col)" by auto
  qed
  show ?thesis
    using step skip none chain_generator_mappings [of E fs ts obf tsMap obfMap A B g]
    by blast
qed

theorem dropped_segment_witness:
  "dropped scenario_A generated_only
   \<and> dropped scenario_A unmapped_midpoint
   \<and> chain_step scenario_A generated_only = Inr []
   \<and> chain_step scenario_A unmapped_midpoint = Inr []
   \<and> chain_mappings scenario_A ([generated_only] @ unmapped_midpoint # [seg_B])
     = chain_mappings scenario_A ([generated_only] @ [seg_B])
   \<and> chain_mappings scenario_A [generated_only, unmapped_midpoint, seg_B]
     = Inr [\<lparr>gen_line = 98, gen_column = 19, orig_line = Some 2, orig_column = Some 3,
             n_source = ''user.ts'', n_name = Some ''userController''\<rparr>]"
proof -
  have 1: "dropped scenario_A generated_only"
    by (simp add: dropped_def generated_only_def truthy_def)
  have 2: "dropped scenario_A unmapped_midpoint"
    by (simp add: dropped_def unmapped_midpoint_def truthy_def scenario_A_def spec_consumer_def
        spec_resolve_def seg_A_def covers_def not_found_def)
  note a = dropped_segment [of scenario_A generated_only "[]" "[unmapped_midpoint, seg_B]",
      THEN conjunct1, THEN mp, OF 1]
  note b = dropped_segment [of scenario_A unmapped_midpoint "[generated_only]" "[seg_B]",
      THEN conjunct1, THEN mp, OF 2]
  have 3: "chain_mappings scenario_A [generated_only, unmapped_midpoint, seg_B]
     = Inr [\<lparr>gen_line = 98, gen_column = 19, orig_line = Some 2, orig_column = Some 3,
             n_source = ''user.ts'', n_name = Some ''userController''\<rparr>]"
    by code_simp
  show ?thesis
    by (intro conjI 1 2 a [THEN conjunct1] b [THEN conjunct1] b [THEN conjunct2] 3)
qed

section \<open>Source contents\<close>

lemma read_source_readable:
  "read_source E fs ts src =
     (case readable E fs (resolve E (dirname E ts) src) of
        Some c \<Rightarrow> [(src, Some c)]
      | None \<Rightarrow> [])"
  by (simp add: read_source_def readable_def Let_def split: sum.splits)

lemma read_sources_append:
  "read_sources E fs ts (xs @ ys) = read_sources E fs ts xs @ read_sources E fs ts ys"
  by (induction xs) simp_all

lemma read_sources_concat:
  "read_sources E fs ts srcs =
     concat (map (\<lambda>src. case readable E fs (resolve E (dirname E ts) src) of
                           Some c \<Rightarrow> [(src, Some c)]
                         | None \<Rightarrow> []) srcs)"
  by (induction srcs) (simp_all add: read_source_readable)

text \<open>
  Claim C8. When the first document has no \<open>sourcesContent\<close>, the contents
  handed to the generator are those of the sources whose file, at the source path
  resolved against the directory of the document, exists and can be read, each
  under the name of its source and in the order of the sources. A source whose
  file is missing or unreadable is left out and changes nothing else, and the
  composition yields its generator whatever the files are.
\<close>

theorem source_contents_read_through:
  "(rm_sourcesContent tsMap = None \<longrightarrow>
      source_contents E fs ts tsMap =
        concat (map (\<lambda>src. case readable E fs (resolve E (dirname E ts) src) of
                              Some c \<Rightarrow> [(src, Some c)]
                            | None \<Rightarrow> []) (rm_sources tsMap)))
   \<and> (rm_sourcesContent tsMap = None \<and> src \<in> set (rm_sources tsMap)
        \<and> readable E fs (resolve E (dirname E ts) src) = Some c \<longrightarrow>
        (src, Some c) \<in> set (source_contents E fs ts tsMap))
   \<and> (readable E fs (resolve E (dirname E ts) src) = None \<longrightarrow>
        read_sources E fs ts (xs @ src # ys) = read_sources E fs ts (xs @ ys))
   \<and> (load_maps E fs ts obf = Inr (tsMap, obfMap, A, B)
        \<and> chain_mappings A (eachMapping B) = Inr added \<longrightarrow>
        (\<exists>file. chain_generator E fs ts obf =
           Inr \<lparr>g_file = file, g_sourcesContents = source_contents E fs ts tsMap,
                g_mappings = added\<rparr>))"
proof (intro conjI impI)
  assume "rm_sourcesContent tsMap = None"
  then show "source_contents E fs ts tsMap =
        concat (map (\<lambda>src. case readable E fs (resolve E (dirname E ts) src) of
                              Some c \<Rightarrow> [(src, Some c)]
                            | None \<Rightarrow> []) (rm_sources tsMap))"
    by (simp add: source_contents_def read_sources_concat)
next
  assume "rm_sourcesContent tsMap = None \<and> src \<in> set (rm_sources tsMap)
        \<and> readable E fs (resolve E (dirname E ts) src) = Some c"
  then show "(src, Some c) \<in> set (source_contents E fs ts tsMap)"
    by (force simp: source_contents_def read_sources_concat)
next
  assume "readable E fs (resolve E (dirname E ts) src) = None"
  then show "read_sources E fs ts (xs @ src # ys) = read_sources E fs ts (xs @ ys)"
    by (simp add: read_sources_append read_source_readable)
next
  assume "load_maps E fs ts obf = Inr (tsMap, obfMap, A, B)
        \<and> chain_mappings A (eachMapping B) = Inr added"
  then show "\<exists>file. chain_generator E fs ts obf =
           Inr \<lparr>g_file = file, g_sourcesContents = source_contents E fs ts tsMap,
                g_mappings = added\<rparr>"
    by (simp add: chain_generator_def Let_def)
qed

theorem source_contents_read_through_witness:
  "rm_sourcesContent raw_A = None
   \<and> rm_sources raw_A = [''user.ts'', ''lost.ts'']
   \<and> readable scenario_env scenario_fs
        (resolve scenario_env (dirname scenario_env ''./dist-sourcemaps-backup/user.js.map'') ''user.ts'')
     = Some ''const userController = 1''
   \<and> readable scenario_env scenario_fs
        (resolve scenario_env (dirname scenario_env ''./dist-sourcemaps-backup/user.js.map'') ''lost.ts'')
     = None
   \<and> source_contents scenario_env scenario_fs ''./dist-sourcemaps-backup/user.js.map'' raw_A
     = [(''user.ts'', Some ''const userController = 1'')]
   \<and> (\<exists>file. chain_generator scenario_env scenario_fs
          ''./dist-sourcemaps-backup/user.js.map'' ''./dist/user.js.map''
        = Inr \<lparr>g_file = file,
               g_sourcesContents =
                 source_contents scenario_env scenario_fs ''./dist-sourcemaps-backup/user.js.map'' raw_A,
               g_mappings = [\<lparr>gen_line = 98, gen_column = 19, orig_line = Some 2,
                 orig_column = Some 3, n_source = ''user.ts'',
                 n_name = Some ''userController''\<rparr>]\<rparr>)"
proof -
  let ?ts = "''./dist-sourcemaps-backup/user.js.map''"
  have 1: "rm_sourcesContent raw_A = None" and 2: "rm_sources raw_A = [''user.ts'', ''lost.ts'']"
    by (simp_all add: raw_A_def)
  have 3: "readable scenario_env scenario_fs
        (resolve scenario_env (dirname scenario_env ?ts) ''user.ts'')
     = Some ''const userController = 1''"
    by code_simp
  have 4: "readable scenario_env scenario_fs
        (resolve scenario_env (dirname scenario_env ?ts) ''lost.ts'') = None"
    by code_simp
  note inst = source_contents_read_through [of raw_A scenario_env scenario_fs ?ts _ _ _ _
      "''./dist/user.js.map''" raw_B scenario_A scenario_B
      "[\<lparr>gen_line = 98, gen_column = 19, orig_line = Some 2,
                 orig_column = Some 3, n_source = ''user.ts'',
                 n_name = Some ''userController''\<rparr>]"]
  from inst [THEN conjunct1, THEN mp, OF 1] 3 4
  have 5: "source_contents scenario_env scenario_fs ?ts raw_A
     = [(''user.ts'', Some ''const userController = 1'')]"
    by (simp add: 2)
  have 6: "chain_mappings scenario_A (eachMapping scenario_B)
     = Inr [\<lparr>gen_line = 98, gen_column = 19, orig_line = Some 2,
                 orig_column = Some 3, n_source = ''user.ts'',
                 n_name = Some ''userController''\<rparr>]"
    by code_simp
  from inst [THEN conjunct2, THEN conjunct2, THEN conjunct2, THEN mp] scenario_load 6
  have 7: "\<exists>file. chain_generator scenario_env scenario_fs ?ts ''./dist/user.js.map''
        = Inr \<lparr>g_file = file,
               g_sourcesContents = source_contents scenario_env scenario_fs ?ts raw_A,
               g_mappings = [\<lparr>gen_line = 98, gen_column = 19, orig_line = Some 2,
                 orig_column = Some 3, n_source = ''user.ts'',
                 n_name = Some ''userController''\<rparr>]\<rparr>"
    by blast
  show ?thesis
    by (intro conjI 1 2 3 4 5 7)
qed

section \<open>The mapping document of a TypeScript frame\<close>

lemma startsWith_append: "startsWith (p @ s) p"
  by (induction p) simp_all

lemma startsWith_length: "startsWith s p \<Longrightarrow> length p \<le> length s"
  by (induction s p rule: startsWith.induct) simp_all

lemma endsWith_length: "endsWith s p \<Longrightarrow> length p \<le> length s"
  using startsWith_length [of "rev s" "rev p"] by (simp add: endsWith_def)

lemma relative_js_file_name_suffix:
  assumes "endsWith n ''.ts''" and "indexOf n ''.ts'' = Some (length n - 3)"
  shows "relative_js_file_name n = take (length n - 3) n @ ''.js''"
  using assms endsWith_length [of n "''.ts''"]
  by (simp add: relative_js_file_name_def replace_def)

text \<open>
  Claim C10, at the frame \<open>at exportRows (report.tsv.ts:3:7)\<close>. The base name ends
  in \<open>.ts\<close>, and the first occurrence of \<open>.ts\<close> is replaced, not the suffix: the
  document looked for is \<open>report.jsv.ts.map\<close>, not \<open>report.tsv.js.map\<close>.
\<close>

theorem ts_replaced_at_first_occurrence:
  "parse_frame ''    at exportRows (report.tsv.ts:3:7)''
     = Some \<lparr>functionName = ''exportRows'', filePath = ''report.tsv.ts'', lineNum = 3, column = 7\<rparr>
   \<and> endsWith ''report.tsv.ts'' ''.ts''
   \<and> relative_js_file_name ''report.tsv.ts'' = ''report.jsv.ts''
   \<and> source_map_path scenario_env ''sourcemaps'' ''report.tsv.ts''
     = ''sourcemaps/report.jsv.ts.map''"
  by (intro conjI; code_simp)

section \<open>The round trip of the codec\<close>

lemma encode_stream_not_Nil: "encode_stream line col prev segs \<noteq> []"
  by (induction line col prev segs rule: encode_stream.induct) (auto split: prod.splits list.splits)

lemma encode_decode_segment:
  "decode_segment srcs nms line col prev deltas = Some (s, col', prev') \<Longrightarrow>
   encode_segment col prev s = (deltas, col', prev') \<and> sg_generatedLine s = line"
  by (auto simp: decode_segment_def encode_segment_def split: list.splits if_splits)

lemma decode_stream_lines:
  "decode_stream srcs nms line i col prev lines = Inr segs \<Longrightarrow>
   \<forall>s \<in> set segs. line \<le> sg_generatedLine s"
proof (induction srcs nms line i col prev lines arbitrary: segs rule: decode_stream.induct)
  case (1 srcs nms line i col prev)
  then show ?case by simp
next
  case (2 srcs nms line i col prev lines)
  then show ?case by fastforce
next
  case (3 srcs nms line i col prev deltas segs' lines)
  from "3.prems" obtain s col' prev' rest where
    d: "decode_segment srcs nms line col prev deltas = Some (s, col', prev')"
    and r: "decode_stream srcs nms line (Suc i) col' prev' (segs' # lines) = Inr rest"
    and e: "segs = s # rest"
    by (auto split: option.splits sum.splits)
  from "3.IH" [OF d refl refl r] encode_decode_segment [OF d] e show ?case by simp
qed

lemma decode_encode_stream:
  "decode_stream srcs nms line i col prev lines = Inr segs \<Longrightarrow>
   decode_stream srcs nms line i col prev (encode_stream line col prev segs) = Inr segs"
proof (induction srcs nms line i col prev lines arbitrary: segs rule: decode_stream.induct)
  case (1 srcs nms line i col prev)
  then show ?case by simp
next
  case (2 srcs nms line i col prev lines)
  from "2.prems" have d: "decode_stream srcs nms (Suc line) 0 0 prev lines = Inr segs" by simp
  show ?case
  proof (cases segs)
    case Nil
    then show ?thesis by simp
  next
    case (Cons s rest)
    with decode_stream_lines [OF d] have "line < sg_generatedLine s" by simp
    with Cons "2.IH" [OF d] show ?thesis by simp
  qed
next
  case (3 srcs nms line i col prev deltas segs' lines)
  from "3.prems" obtain s col' prev' rest where
    d: "decode_segment srcs nms line col prev deltas = Some (s, col', prev')"
    and r: "decode_stream srcs nms line (Suc i) col' prev' (segs' # lines) = Inr rest"
    and e: "segs = s # rest"
    by (auto split: option.splits sum.splits)
  obtain l ls where n: "encode_stream line col' prev' rest = l # ls"
    using encode_stream_not_Nil [of line col' prev' rest] by (cases "encode_stream line col' prev' rest") auto
  from "3.IH" [OF d refl refl r] n encode_decode_segment [OF d] d e
  show ?case by simp
qed

text \<open>
  Claim C9. For every document that decodes, encoding the decoded segment
  sequence with the decoded tables and decoding the result yields the same
  segment sequence and the same sources and names tables.
\<close>

theorem decode_encode_decode:
  "decode doc = Inr (segs, srcs, nms) \<Longrightarrow>
   decode (encode segs srcs nms contents file) = Inr (segs, srcs, nms)"
  by (auto simp: decode_def encode_def decode_encode_stream split: sum.splits)


theorem decode_encode_decode_witness:
  "decode sample_document = Inr (sample_segments, [''a.ts'', ''b.ts''], [''f''])
   \<and> md_mappings (encode sample_segments [''a.ts'', ''b.ts''] [''f''] None None)
     = [[[0, 0, 0, 0, 0], [4], [2, 1, 3, - 2]], [], [[1, - 1, 1, 5]]]
   \<and> decode (encode sample_segments [''a.ts'', ''b.ts''] [''f''] None None)
     = Inr (sample_segments, [''a.ts'', ''b.ts''], [''f''])"
proof -
  have 1: "decode sample_document = Inr (sample_segments, [''a.ts'', ''b.ts''], [''f''])"
    by code_simp
  have 2: "md_mappings (encode sample_segments [''a.ts'', ''b.ts''] [''f''] None None)
     = [[[0, 0, 0, 0, 0], [4], [2, 1, 3, - 2]], [], [[1, - 1, 1, 5]]]"
    by code_simp
  from decode_encode_decode [OF 1, of None None] 1 2 show ?thesis by simp
qed


end
